theory Spec2Isabelle
  imports Main
begin

section \<open>The schema of \<open>app/models.py\<close>\<close>

text \<open>
  The module declares twelve table classes and twelve validation-only classes with SQLModel.
  It has no function bodies: each class is a list of typed attributes with \<open>Field(...)\<close>
  options. The embedding keeps that shape. A class is a value of type \<open>model\<close> (its name, its
  table name when it is a table, its fields in declaration order), and the meaning of the
  options (length, pattern, enumeration membership, decimal digits, defaults) is given once,
  by a validator that walks the field list the way the model validator of the library does
  (\<open>Model.model_validate(payload)\<close>). Validation is what happens when a payload is validated
  against a class in this way; building an object of a table class directly from keyword
  arguments runs no validation in SQLModel and is not what the properties below are about.
\<close>

subsection \<open>Enumerations (lines 9-40)\<close>

datatype UserRole = ADMIN | MANAGER | VIEWER | EXTERNAL | TEAM_MEMBER

datatype ToolCategory = APP | PLATFORM | CONTROL_BOARD

datatype OnboardingStatus = PENDING | IN_PROGRESS | COMPLETED

datatype InductionStatus = NOT_STARTED | IN_PROGRESS | COMPLETED

datatype ContentType = TEXT | IMAGE | VIDEO | FILE | LINK

fun UserRole_value :: "UserRole \<Rightarrow> string" where
  "UserRole_value ADMIN = ''admin''"
| "UserRole_value MANAGER = ''manager''"
| "UserRole_value VIEWER = ''viewer''"
| "UserRole_value EXTERNAL = ''external''"
| "UserRole_value TEAM_MEMBER = ''team_member''"

fun ToolCategory_value :: "ToolCategory \<Rightarrow> string" where
  "ToolCategory_value APP = ''app''"
| "ToolCategory_value PLATFORM = ''platform''"
| "ToolCategory_value CONTROL_BOARD = ''control_board''"

fun OnboardingStatus_value :: "OnboardingStatus \<Rightarrow> string" where
  "OnboardingStatus_value PENDING = ''pending''"
| "OnboardingStatus_value OnboardingStatus.IN_PROGRESS = ''in_progress''"
| "OnboardingStatus_value OnboardingStatus.COMPLETED = ''completed''"

fun InductionStatus_value :: "InductionStatus \<Rightarrow> string" where
  "InductionStatus_value NOT_STARTED = ''not_started''"
| "InductionStatus_value InductionStatus.IN_PROGRESS = ''in_progress''"
| "InductionStatus_value InductionStatus.COMPLETED = ''completed''"

fun ContentType_value :: "ContentType \<Rightarrow> string" where
  "ContentType_value TEXT = ''text''"
| "ContentType_value IMAGE = ''image''"
| "ContentType_value VIDEO = ''video''"
| "ContentType_value FILE = ''file''"
| "ContentType_value LINK = ''link''"

text \<open>The five enumeration classes, and a member of any of them.\<close>

datatype enum_cls =
  UserRole_cls | ToolCategory_cls | OnboardingStatus_cls | InductionStatus_cls | ContentType_cls

datatype enum_member =
  Role UserRole
| Category ToolCategory
| Onboarding OnboardingStatus
| Induction InductionStatus
| Content ContentType

fun enum_value :: "enum_member \<Rightarrow> string" where
  "enum_value (Role r) = UserRole_value r"
| "enum_value (Category c) = ToolCategory_value c"
| "enum_value (Onboarding s) = OnboardingStatus_value s"
| "enum_value (Induction s) = InductionStatus_value s"
| "enum_value (Content t) = ContentType_value t"

text \<open>The members of a class, in the order the class body lists them.\<close>

fun enum_members :: "enum_cls \<Rightarrow> enum_member list" where
  "enum_members UserRole_cls = map Role [ADMIN, MANAGER, VIEWER, EXTERNAL, TEAM_MEMBER]"
| "enum_members ToolCategory_cls = map Category [APP, PLATFORM, CONTROL_BOARD]"
| "enum_members OnboardingStatus_cls =
     map Onboarding [PENDING, OnboardingStatus.IN_PROGRESS, OnboardingStatus.COMPLETED]"
| "enum_members InductionStatus_cls =
     map Induction [NOT_STARTED, InductionStatus.IN_PROGRESS, InductionStatus.COMPLETED]"
| "enum_members ContentType_cls = map Content [TEXT, IMAGE, VIDEO, FILE, LINK]"

text \<open>\<open>EnumClass(value)\<close>: the first member whose value is the given string.\<close>

definition enum_lookup :: "enum_cls \<Rightarrow> string \<Rightarrow> enum_member option" where
  "enum_lookup c s = find (\<lambda>m. enum_value m = s) (enum_members c)"

subsection \<open>Patterns\<close>

text \<open>
  The one pattern of the module is the \<open>regex\<close> option of \<open>User.email\<close> (line 48). Patterns
  are kept as syntax trees and matched by taking derivatives, one character at a time. The
  pattern of the source is anchored at both ends (\<open>^ ... $\<close>); a pattern is kept as the
  expression between the two anchors, \<open>matches\<close> is the match of that expression against a
  whole string, and \<open>re_match\<close> below is the match of the anchored pattern as Python's \<open>re\<close>
  finds it.
\<close>

datatype cls_item = Range char char | Single char

datatype rexp =
  Nothing
| Empty
| Lit char
| CharClass "cls_item list"
| Seq rexp rexp
| Alt rexp rexp
| Star rexp
| Plus rexp

fun in_item :: "char \<Rightarrow> cls_item \<Rightarrow> bool" where
  "in_item c (Range lo hi) = ((of_char lo :: nat) \<le> of_char c \<and> (of_char c :: nat) \<le> of_char hi)"
| "in_item c (Single d) = (c = d)"

definition in_class :: "char \<Rightarrow> cls_item list \<Rightarrow> bool" where
  "in_class c items = list_ex (in_item c) items"

fun nullable :: "rexp \<Rightarrow> bool" where
  "nullable Nothing = False"
| "nullable Empty = True"
| "nullable (Lit _) = False"
| "nullable (CharClass _) = False"
| "nullable (Seq r s) = (nullable r \<and> nullable s)"
| "nullable (Alt r s) = (nullable r \<or> nullable s)"
| "nullable (Star _) = True"
| "nullable (Plus r) = nullable r"

fun deriv :: "char \<Rightarrow> rexp \<Rightarrow> rexp" where
  "deriv c Nothing = Nothing"
| "deriv c Empty = Nothing"
| "deriv c (Lit d) = (if c = d then Empty else Nothing)"
| "deriv c (CharClass items) = (if in_class c items then Empty else Nothing)"
| "deriv c (Seq r s) =
     (if nullable r then Alt (Seq (deriv c r) s) (deriv c s) else Seq (deriv c r) s)"
| "deriv c (Alt r s) = Alt (deriv c r) (deriv c s)"
| "deriv c (Star r) = Seq (deriv c r) (Star r)"
| "deriv c (Plus r) = Seq (deriv c r) (Star r)"

fun matches :: "rexp \<Rightarrow> string \<Rightarrow> bool" where
  "matches r [] = nullable r"
| "matches r (c # cs) = matches (deriv c r) cs"

text \<open>
  \<open>re.match\<close> of \<open>^r$\<close>: in Python \<open>$\<close> matches at the end of the string and also just
  before a newline that ends the string, so the string matches when \<open>r\<close> matches all of it, or
  all of it but one final newline.
\<close>

definition re_match :: "rexp \<Rightarrow> string \<Rightarrow> bool" where
  "re_match r s = (matches r s \<or> (s \<noteq> [] \<and> last s = CHR 0x0A \<and> matches r (butlast s)))"

text \<open>
  The module does not pin the release of the libraries that give its declarations their
  meaning, and two things differ between SQLModel on pydantic 1 and on pydantic 2: what
  becomes of the option \<open>regex=\<close>, and how the digits of a decimal are counted. The
  validator below takes the library as a parameter, and the properties are proved for both.

  With pydantic 1 a string is matched against the pattern of \<open>regex=\<close>. With pydantic 2,
  SQLModel hands \<open>regex=\<close> to a field information that knows no such constraint (the
  constraint is called \<open>pattern\<close> there), and no pattern is checked.
\<close>

datatype library = Pydantic_1 | Pydantic_2

definition pattern_ok :: "library \<Rightarrow> rexp \<Rightarrow> string \<Rightarrow> bool" where
  "pattern_ok lib r s = (case lib of Pydantic_1 \<Rightarrow> re_match r s | Pydantic_2 \<Rightarrow> True)"

subsection \<open>Decimal numbers\<close>

text \<open>
  A finite \<open>decimal.Decimal\<close> as \<open>as_tuple()\<close> shows it: a sign, the digits read as a
  natural number, and an exponent; its value is \<open>\<plusminus> coefficient * 10 ^ exponent\<close>.
  \<open>Decimal("50.25")\<close> is \<open>Decimal False 5025 (-2)\<close>. Infinities and NaN, which no digit
  constraint accepts, are left out.
\<close>

datatype decimal = Decimal (negative: bool) (coefficient: nat) (exponent: int)

text \<open>The length of the digit tuple: the tuple of zero is \<open>(0,)\<close>.\<close>

function num_digits :: "nat \<Rightarrow> nat" where
  "num_digits n = (if n < 10 then 1 else Suc (num_digits (n div 10)))"
  by pat_completeness auto
termination
  by (relation "measure id") auto

declare num_digits.simps [simp del]

text \<open>
  The options \<open>max_digits\<close> and \<open>decimal_places\<close> do not count trailing decimal zeros: the
  library counts on the result of \<open>Decimal.normalize()\<close>. That method first rounds the number
  to the precision of the arithmetic context, 28 significant digits, half to even; then it
  moves the trailing zeros of the coefficient into the exponent (\<open>1.50\<close> becomes \<open>1.5\<close>,
  \<open>100\<close> becomes \<open>1E+2\<close>) and writes zero as \<open>0\<close>. The limits of the context on the
  exponent (beyond \<open>\<plusminus>999999\<close>) are not modelled; the properties of decimals below are stated
  for numbers whose exponents are far inside them.
\<close>

definition context_prec :: nat where
  "context_prec = 28"

definition round_to_context :: "nat \<Rightarrow> int \<Rightarrow> nat \<times> int" where
  "round_to_context c e =
     (let len = num_digits c
      in if len \<le> context_prec then (c, e)
         else (let k = len - context_prec;
                   q = c div 10 ^ k;
                   rest = c mod 10 ^ k;
                   half = 5 * 10 ^ (k - 1);
                   q' = (if half < rest \<or> (rest = half \<and> odd q) then q + 1 else q)
               in if context_prec < num_digits q' then (q' div 10, e + int k + 1)
                  else (q', e + int k)))"

function strip_zeros :: "nat \<Rightarrow> int \<Rightarrow> nat \<times> int" where
  "strip_zeros c e =
     (if c \<noteq> 0 \<and> c mod 10 = 0 then strip_zeros (c div 10) (e + 1) else (c, e))"
  by pat_completeness auto
termination
  by (relation "measure fst") auto

declare strip_zeros.simps [simp del]

definition normalize_decimal :: "decimal \<Rightarrow> decimal" where
  "normalize_decimal d =
     (case round_to_context (coefficient d) (exponent d) of
        (c, e) \<Rightarrow>
          if c = 0 then Decimal (negative d) 0 0
          else (case strip_zeros c e of (c', e') \<Rightarrow> Decimal (negative d) c' e'))"

text \<open>
  The digits and the decimal places of a number as the library reads them off \<open>as_tuple()\<close>:
  a non-negative exponent adds that many zeros to the digits and leaves no decimal place; a
  negative exponent gives the decimal places, and at least that many digits.
\<close>

definition raw_info :: "decimal \<Rightarrow> nat \<times> nat" where
  "raw_info d =
     (let len = num_digits (coefficient d)
      in if 0 \<le> exponent d then (len + nat (exponent d), 0)
         else if len < nat (- exponent d) then (nat (- exponent d), nat (- exponent d))
         else (len, nat (- exponent d)))"

text \<open>The same of the normalized number.\<close>

definition digits_info :: "decimal \<Rightarrow> nat \<times> nat" where
  "digits_info d = raw_info (normalize_decimal d)"

subsection \<open>Values, payloads and errors\<close>

text \<open>
  The values a field can hold. \<open>VNone\<close> is Python's \<open>None\<close>; a string is a list of
  characters and its length is the number of its characters; a datetime is a point on a
  clock counted in whole units; \<open>Dict[str, Any]\<close> and \<open>List[str]\<close> are JSON-like containers.
\<close>

datatype val =
  VNone
| VBool bool
| VInt int
| VStr string
| VDatetime int
| VDecimal decimal
| VEnum enum_member
| VList "val list"
| VDict "(string \<times> val) list"

text \<open>
  A payload is a dictionary from field names to values; a key that is absent was not given.
  A validated object and a stored row are dictionaries of the same kind.
\<close>

type_synonym payload = "string \<rightharpoonup> val"

type_synonym row = "string \<rightharpoonup> val"

text \<open>
  Section 7 of the specification names three kinds of error. A validation error lists every
  field that failed with the reason; the other two come from the store. \<open>NotATable\<close> is the
  failure to persist an object of a class that has no table.
\<close>

datatype reason =
  Missing
| Wrong_type
| Too_long
| Pattern_mismatch
| Invalid_enum_value
| Max_digits
| Max_decimal_places
| Whole_digits

datatype error =
  ValidationError "(string \<times> reason) list"
| ConflictError
| ReferenceError
| NotATable

subsection \<open>Field declarations\<close>

datatype annotation =
  T_int
| T_str
| T_bool
| T_datetime
| T_Decimal
| T_Enum enum_cls
| T_Dict_str_Any
| T_List_str
| T_Optional annotation

datatype factory = Utcnow

text \<open>
  The keyword arguments of \<open>Field(...)\<close> that the module uses. \<open>dflt = None\<close> with
  \<open>default_factory = None\<close> is a required field; \<open>Field(default=None)\<close> is
  \<open>dflt = Some VNone\<close>. A foreign key is the string of the source, \<open>"table.column"\<close>.
\<close>

record FieldInfo =
  dflt :: "val option"
  default_factory :: "factory option"
  primary_key :: bool
  unique :: bool
  foreign_key :: "string option"
  max_length :: "nat option"
  regex :: "rexp option"
  max_digits :: "nat option"
  decimal_places :: "nat option"
  sa_column_JSON :: bool

text \<open>\<open>Field()\<close> with no argument, which is also an attribute with an annotation only.\<close>

definition Field :: FieldInfo where
  "Field = \<lparr>dflt = None, default_factory = None, primary_key = False, unique = False,
     foreign_key = None, max_length = None, regex = None, max_digits = None,
     decimal_places = None, sa_column_JSON = False\<rparr>"

record field =
  name :: string
  annotation :: annotation
  info :: FieldInfo

definition fld :: "string \<Rightarrow> annotation \<Rightarrow> FieldInfo \<Rightarrow> field" where
  "fld n a i = \<lparr>name = n, annotation = a, info = i\<rparr>"

record model =
  cls_name :: string
  tablename :: "string option"
  model_fields :: "field list"

subsection \<open>Validation of one value\<close>

text \<open>
  The string constraints, in the order the validator applies them: the length, then the
  pattern, where the library checks patterns.
\<close>

definition check_str :: "library \<Rightarrow> FieldInfo \<Rightarrow> string \<Rightarrow> reason + val" where
  "check_str lib i s =
     (if (case max_length i of None \<Rightarrow> False | Some l \<Rightarrow> l < length s) then Inl Too_long
      else if (case regex i of None \<Rightarrow> False | Some r \<Rightarrow> \<not> pattern_ok lib r s)
        then Inl Pattern_mismatch
      else Inr (VStr s))"

text \<open>
  The decimal constraints, as the libraries check them. Both compare the digits with
  \<open>max_digits\<close>, then the decimal places with \<open>decimal_places\<close>, then, when both options are
  declared, the digits before the point with \<open>max_digits - decimal_places\<close> (the error for the
  last one reads "no more than ... digits before the decimal point"; a column
  \<open>NUMERIC(5, 2)\<close> leaves room for three such digits as well). Pydantic 1 counts on the
  normalized number throughout. Pydantic 2 counts on the number as given and on the normalized
  number: the digits, and the decimal places, are too many only if both counts are, and the
  digits before the point are those of the number as given.
\<close>

definition check_decimal :: "library \<Rightarrow> FieldInfo \<Rightarrow> decimal \<Rightarrow> reason + val" where
  "check_decimal lib i d =
     (case lib of
        Pydantic_1 \<Rightarrow>
          (case digits_info d of (digits, decimals) \<Rightarrow>
             if (case max_digits i of None \<Rightarrow> False | Some m \<Rightarrow> m < digits) then Inl Max_digits
             else if (case decimal_places i of None \<Rightarrow> False | Some p \<Rightarrow> p < decimals)
               then Inl Max_decimal_places
             else if (case (max_digits i, decimal_places i) of
                        (Some m, Some p) \<Rightarrow> int m - int p < int digits - int decimals
                      | _ \<Rightarrow> False)
               then Inl Whole_digits
             else Inr (VDecimal d))
      | Pydantic_2 \<Rightarrow>
          (case (raw_info d, digits_info d) of
             ((digits, decimals), (normalized_digits, normalized_decimals)) \<Rightarrow>
               if (case max_digits i of None \<Rightarrow> False
                   | Some m \<Rightarrow> m < digits \<and> m < normalized_digits)
                 then Inl Max_digits
               else if (case decimal_places i of None \<Rightarrow> False
                        | Some p \<Rightarrow> p < decimals \<and> p < normalized_decimals)
                 then Inl Max_decimal_places
               else if (case (max_digits i, decimal_places i) of
                          (Some m, Some p) \<Rightarrow> m - p < digits - decimals
                        | _ \<Rightarrow> False)
                 then Inl Whole_digits
               else Inr (VDecimal d)))"

definition is_VStr :: "val \<Rightarrow> bool" where
  "is_VStr v = (case v of VStr _ \<Rightarrow> True | _ \<Rightarrow> False)"

text \<open>
  A value against an annotation. An enumeration takes a member of the class or the value
  string of one; \<open>Optional[T]\<close> takes \<open>None\<close> or what \<open>T\<close> takes. A value of another type
  is refused (the conversions of the library's lax mode, such as a digit string for an
  \<open>int\<close>, are not modelled).
\<close>

fun validate_value :: "library \<Rightarrow> annotation \<Rightarrow> FieldInfo \<Rightarrow> val \<Rightarrow> reason + val" where
  "validate_value lib (T_Optional a) i v = (if v = VNone then Inr VNone else validate_value lib a i v)"
| "validate_value lib T_int i v = (case v of VInt n \<Rightarrow> Inr (VInt n) | _ \<Rightarrow> Inl Wrong_type)"
| "validate_value lib T_bool i v = (case v of VBool b \<Rightarrow> Inr (VBool b) | _ \<Rightarrow> Inl Wrong_type)"
| "validate_value lib T_datetime i v =
     (case v of VDatetime t \<Rightarrow> Inr (VDatetime t) | _ \<Rightarrow> Inl Wrong_type)"
| "validate_value lib T_str i v = (case v of VStr s \<Rightarrow> check_str lib i s | _ \<Rightarrow> Inl Wrong_type)"
| "validate_value lib T_Decimal i v =
     (case v of VDecimal d \<Rightarrow> check_decimal lib i d | _ \<Rightarrow> Inl Wrong_type)"
| "validate_value lib (T_Enum c) i v =
     (case v of
        VStr s \<Rightarrow> (case enum_lookup c s of None \<Rightarrow> Inl Invalid_enum_value
                   | Some m \<Rightarrow> Inr (VEnum m))
      | VEnum m \<Rightarrow> (if m \<in> set (enum_members c) then Inr (VEnum m) else Inl Invalid_enum_value)
      | _ \<Rightarrow> Inl Invalid_enum_value)"
| "validate_value lib T_Dict_str_Any i v =
     (case v of VDict kvs \<Rightarrow> Inr (VDict kvs) | _ \<Rightarrow> Inl Wrong_type)"
| "validate_value lib T_List_str i v =
     (case v of VList xs \<Rightarrow> (if list_all is_VStr xs then Inr (VList xs) else Inl Wrong_type)
      | _ \<Rightarrow> Inl Wrong_type)"

subsection \<open>Validation of a payload\<close>

text \<open>
  A field that the payload gives is validated; one it omits takes its declared default (which
  is not validated again), or the value of its default factory at the time \<open>now\<close>; a required
  field that is omitted is an error.
\<close>

definition validate_field ::
  "library \<Rightarrow> int \<Rightarrow> field \<Rightarrow> val option \<Rightarrow> reason + val" where
  "validate_field lib now f given =
     (case given of
        Some v \<Rightarrow> validate_value lib (annotation f) (info f) v
      | None \<Rightarrow>
          (case dflt (info f) of
             Some d \<Rightarrow> Inr d
           | None \<Rightarrow>
               (case default_factory (info f) of
                  Some Utcnow \<Rightarrow> Inr (VDatetime now)
                | None \<Rightarrow> Inl Missing)))"

text \<open>
  All fields are validated and every failure is collected; keys of the payload that name no
  field are ignored.
\<close>

fun validate_fields ::
  "library \<Rightarrow> int \<Rightarrow> field list \<Rightarrow> payload \<Rightarrow> (string \<times> reason) list \<times> row" where
  "validate_fields lib now [] p = ([], Map.empty)"
| "validate_fields lib now (f # fs) p =
     (case validate_fields lib now fs p of
        (errs, r) \<Rightarrow>
          (case validate_field lib now f (p (name f)) of
             Inl e \<Rightarrow> ((name f, e) # errs, r)
           | Inr v \<Rightarrow> (errs, r(name f \<mapsto> v))))"

definition model_validate :: "library \<Rightarrow> model \<Rightarrow> int \<Rightarrow> payload \<Rightarrow> error + row" where
  "model_validate lib m now p =
     (case validate_fields lib now (model_fields m) p of
        ([], r) \<Rightarrow> Inr r
      | (errs, r) \<Rightarrow> Inl (ValidationError errs))"

subsection \<open>The classes of the module\<close>

text \<open>
  The pattern of \<open>User.email\<close> (line 48), as the source writes it:
  \<^verbatim>\<open>^[a-zA-Z0-9_.+-]+@[a-zA-Z0-9-]+\.[a-zA-Z0-9-.]+$\<close>
  In the last class the hyphen after the range \<open>0-9\<close> is a literal hyphen, followed by a
  literal dot.
\<close>

definition email_regex :: rexp where
  "email_regex =
     Seq (Plus (CharClass [Range CHR ''a'' CHR ''z'', Range CHR ''A'' CHR ''Z'',
                           Range CHR ''0'' CHR ''9'', Single CHR ''_'', Single CHR ''.'',
                           Single CHR ''+'', Single CHR ''-'']))
    (Seq (Lit CHR ''@'')
    (Seq (Plus (CharClass [Range CHR ''a'' CHR ''z'', Range CHR ''A'' CHR ''Z'',
                           Range CHR ''0'' CHR ''9'', Single CHR ''-'']))
    (Seq (Lit CHR ''.'')
         (Plus (CharClass [Range CHR ''a'' CHR ''z'', Range CHR ''A'' CHR ''Z'',
                           Range CHR ''0'' CHR ''9'', Single CHR ''-'', Single CHR ''.''])))))"

text \<open>
  Each class below lists its fields as the source declares them, in order, with the line
  numbers of the class. \<open>Relationship(...)\<close> attributes are links between loaded objects, not
  columns or validated fields, and are left out. The table classes come first (lines 44-274),
  then the classes declared with \<open>table=False\<close> (lines 278-381).
\<close>

text \<open>\<open>User\<close>, lines 44-53.\<close>

definition User :: model where
  "User = \<lparr>cls_name = ''User'', tablename = Some ''users'', model_fields = [
     fld ''id'' (T_Optional T_int) (Field\<lparr>dflt := Some VNone, primary_key := True\<rparr>),
     fld ''email'' T_str
       (Field\<lparr>unique := True, max_length := Some 255, regex := Some email_regex\<rparr>),
     fld ''first_name'' T_str (Field\<lparr>max_length := Some 100\<rparr>),
     fld ''last_name'' T_str (Field\<lparr>max_length := Some 100\<rparr>),
     fld ''is_active'' T_bool (Field\<lparr>dflt := Some (VBool True)\<rparr>),
     fld ''created_at'' T_datetime (Field\<lparr>default_factory := Some Utcnow\<rparr>),
     fld ''updated_at'' (T_Optional T_datetime) (Field\<lparr>dflt := Some VNone\<rparr>)]\<rparr>"

text \<open>\<open>Project\<close>, lines 64-77.\<close>

definition Project :: model where
  "Project = \<lparr>cls_name = ''Project'', tablename = Some ''projects'', model_fields = [
     fld ''id'' (T_Optional T_int) (Field\<lparr>dflt := Some VNone, primary_key := True\<rparr>),
     fld ''name'' T_str (Field\<lparr>max_length := Some 200\<rparr>),
     fld ''description'' T_str
       (Field\<lparr>dflt := Some (VStr []), max_length := Some 2000\<rparr>),
     fld ''code'' T_str (Field\<lparr>unique := True, max_length := Some 20\<rparr>),
     fld ''start_date'' (T_Optional T_datetime) (Field\<lparr>dflt := Some VNone\<rparr>),
     fld ''end_date'' (T_Optional T_datetime) (Field\<lparr>dflt := Some VNone\<rparr>),
     fld ''is_active'' T_bool (Field\<lparr>dflt := Some (VBool True)\<rparr>),
     fld ''created_by_id'' T_int (Field\<lparr>foreign_key := Some ''users.id''\<rparr>),
     fld ''created_at'' T_datetime (Field\<lparr>default_factory := Some Utcnow\<rparr>),
     fld ''updated_at'' (T_Optional T_datetime) (Field\<lparr>dflt := Some VNone\<rparr>),
     fld ''settings'' T_Dict_str_Any
       (Field\<lparr>dflt := Some (VDict []), sa_column_JSON := True\<rparr>)]\<rparr>"

text \<open>\<open>ProjectMembership\<close>, lines 89-97.\<close>

definition ProjectMembership :: model where
  "ProjectMembership = \<lparr>cls_name = ''ProjectMembership'', tablename = Some ''project_memberships'', model_fields = [
     fld ''id'' (T_Optional T_int) (Field\<lparr>dflt := Some VNone, primary_key := True\<rparr>),
     fld ''user_id'' T_int (Field\<lparr>foreign_key := Some ''users.id''\<rparr>),
     fld ''project_id'' T_int (Field\<lparr>foreign_key := Some ''projects.id''\<rparr>),
     fld ''role'' (T_Enum UserRole_cls)
       (Field\<lparr>dflt := Some (VEnum (Role TEAM_MEMBER))\<rparr>),
     fld ''joined_at'' T_datetime (Field\<lparr>default_factory := Some Utcnow\<rparr>),
     fld ''is_active'' T_bool (Field\<lparr>dflt := Some (VBool True)\<rparr>)]\<rparr>"

text \<open>\<open>Tool\<close>, lines 105-117.\<close>

definition Tool :: model where
  "Tool = \<lparr>cls_name = ''Tool'', tablename = Some ''tools'', model_fields = [
     fld ''id'' (T_Optional T_int) (Field\<lparr>dflt := Some VNone, primary_key := True\<rparr>),
     fld ''name'' T_str (Field\<lparr>max_length := Some 200\<rparr>),
     fld ''description'' T_str
       (Field\<lparr>dflt := Some (VStr []), max_length := Some 1000\<rparr>),
     fld ''category'' (T_Enum ToolCategory_cls) Field,
     fld ''icon_url'' (T_Optional T_str)
       (Field\<lparr>dflt := Some VNone, max_length := Some 500\<rparr>),
     fld ''external_url'' (T_Optional T_str)
       (Field\<lparr>dflt := Some VNone, max_length := Some 500\<rparr>),
     fld ''is_embeddable'' T_bool (Field\<lparr>dflt := Some (VBool False)\<rparr>),
     fld ''embed_config'' T_Dict_str_Any
       (Field\<lparr>dflt := Some (VDict []), sa_column_JSON := True\<rparr>),
     fld ''is_active'' T_bool (Field\<lparr>dflt := Some (VBool True)\<rparr>),
     fld ''created_at'' T_datetime (Field\<lparr>default_factory := Some Utcnow\<rparr>)]\<rparr>"

text \<open>\<open>ProjectTool\<close>, lines 124-133.\<close>

definition ProjectTool :: model where
  "ProjectTool = \<lparr>cls_name = ''ProjectTool'', tablename = Some ''project_tools'', model_fields = [
     fld ''id'' (T_Optional T_int) (Field\<lparr>dflt := Some VNone, primary_key := True\<rparr>),
     fld ''project_id'' T_int (Field\<lparr>foreign_key := Some ''projects.id''\<rparr>),
     fld ''tool_id'' T_int (Field\<lparr>foreign_key := Some ''tools.id''\<rparr>),
     fld ''is_enabled'' T_bool (Field\<lparr>dflt := Some (VBool True)\<rparr>),
     fld ''configuration'' T_Dict_str_Any
       (Field\<lparr>dflt := Some (VDict []), sa_column_JSON := True\<rparr>),
     fld ''required_roles'' T_List_str
       (Field\<lparr>dflt := Some (VList []), sa_column_JSON := True\<rparr>),
     fld ''created_at'' T_datetime (Field\<lparr>default_factory := Some Utcnow\<rparr>)]\<rparr>"

text \<open>\<open>NewStarterRequest\<close>, lines 141-158.\<close>

definition NewStarterRequest :: model where
  "NewStarterRequest = \<lparr>cls_name = ''NewStarterRequest'', tablename = Some ''new_starter_requests'', model_fields = [
     fld ''id'' (T_Optional T_int) (Field\<lparr>dflt := Some VNone, primary_key := True\<rparr>),
     fld ''project_id'' T_int (Field\<lparr>foreign_key := Some ''projects.id''\<rparr>),
     fld ''manager_id'' T_int (Field\<lparr>foreign_key := Some ''users.id''\<rparr>),
     fld ''starter_email'' T_str (Field\<lparr>max_length := Some 255\<rparr>),
     fld ''starter_first_name'' T_str (Field\<lparr>max_length := Some 100\<rparr>),
     fld ''starter_last_name'' T_str (Field\<lparr>max_length := Some 100\<rparr>),
     fld ''start_date'' T_datetime Field,
     fld ''role'' (T_Enum UserRole_cls)
       (Field\<lparr>dflt := Some (VEnum (Role TEAM_MEMBER))\<rparr>),
     fld ''department'' (T_Optional T_str)
       (Field\<lparr>dflt := Some VNone, max_length := Some 100\<rparr>),
     fld ''position'' (T_Optional T_str)
       (Field\<lparr>dflt := Some VNone, max_length := Some 100\<rparr>),
     fld ''line_manager'' (T_Optional T_str)
       (Field\<lparr>dflt := Some VNone, max_length := Some 200\<rparr>),
     fld ''notes'' (T_Optional T_str)
       (Field\<lparr>dflt := Some VNone, max_length := Some 1000\<rparr>),
     fld ''status'' (T_Enum OnboardingStatus_cls)
       (Field\<lparr>dflt := Some (VEnum (Onboarding PENDING))\<rparr>),
     fld ''created_at'' T_datetime (Field\<lparr>default_factory := Some Utcnow\<rparr>),
     fld ''updated_at'' (T_Optional T_datetime) (Field\<lparr>dflt := Some VNone\<rparr>)]\<rparr>"

text \<open>\<open>OnboardingDetails\<close>, lines 167-183.\<close>

definition OnboardingDetails :: model where
  "OnboardingDetails = \<lparr>cls_name = ''OnboardingDetails'', tablename = Some ''onboarding_details'', model_fields = [
     fld ''id'' (T_Optional T_int) (Field\<lparr>dflt := Some VNone, primary_key := True\<rparr>),
     fld ''request_id'' T_int
       (Field\<lparr>foreign_key := Some ''new_starter_requests.id'', unique := True\<rparr>),
     fld ''new_starter_id'' T_int (Field\<lparr>foreign_key := Some ''users.id''\<rparr>),
     fld ''phone_number'' (T_Optional T_str)
       (Field\<lparr>dflt := Some VNone, max_length := Some 20\<rparr>),
     fld ''address'' (T_Optional T_str)
       (Field\<lparr>dflt := Some VNone, max_length := Some 500\<rparr>),
     fld ''emergency_contact_name'' (T_Optional T_str)
       (Field\<lparr>dflt := Some VNone, max_length := Some 200\<rparr>),
     fld ''emergency_contact_phone'' (T_Optional T_str)
       (Field\<lparr>dflt := Some VNone, max_length := Some 20\<rparr>),
     fld ''previous_experience'' (T_Optional T_str)
       (Field\<lparr>dflt := Some VNone, max_length := Some 2000\<rparr>),
     fld ''skills'' T_List_str
       (Field\<lparr>dflt := Some (VList []), sa_column_JSON := True\<rparr>),
     fld ''certifications'' T_List_str
       (Field\<lparr>dflt := Some (VList []), sa_column_JSON := True\<rparr>),
     fld ''accessibility_requirements'' (T_Optional T_str)
       (Field\<lparr>dflt := Some VNone, max_length := Some 1000\<rparr>),
     fld ''dietary_requirements'' (T_Optional T_str)
       (Field\<lparr>dflt := Some VNone, max_length := Some 500\<rparr>),
     fld ''additional_info'' T_Dict_str_Any
       (Field\<lparr>dflt := Some (VDict []), sa_column_JSON := True\<rparr>),
     fld ''completed_at'' T_datetime (Field\<lparr>default_factory := Some Utcnow\<rparr>)]\<rparr>"

text \<open>\<open>InductionChapter\<close>, lines 191-201.\<close>

definition InductionChapter :: model where
  "InductionChapter = \<lparr>cls_name = ''InductionChapter'', tablename = Some ''induction_chapters'', model_fields = [
     fld ''id'' (T_Optional T_int) (Field\<lparr>dflt := Some VNone, primary_key := True\<rparr>),
     fld ''project_id'' T_int (Field\<lparr>foreign_key := Some ''projects.id''\<rparr>),
     fld ''title'' T_str (Field\<lparr>max_length := Some 200\<rparr>),
     fld ''description'' (T_Optional T_str)
       (Field\<lparr>dflt := Some VNone, max_length := Some 1000\<rparr>),
     fld ''order_index'' T_int (Field\<lparr>dflt := Some (VInt 0)\<rparr>),
     fld ''is_required'' T_bool (Field\<lparr>dflt := Some (VBool True)\<rparr>),
     fld ''is_active'' T_bool (Field\<lparr>dflt := Some (VBool True)\<rparr>),
     fld ''created_at'' T_datetime (Field\<lparr>default_factory := Some Utcnow\<rparr>)]\<rparr>"

text \<open>\<open>InductionSection\<close>, lines 208-216.\<close>

definition InductionSection :: model where
  "InductionSection = \<lparr>cls_name = ''InductionSection'', tablename = Some ''induction_sections'', model_fields = [
     fld ''id'' (T_Optional T_int) (Field\<lparr>dflt := Some VNone, primary_key := True\<rparr>),
     fld ''chapter_id'' T_int (Field\<lparr>foreign_key := Some ''induction_chapters.id''\<rparr>),
     fld ''title'' T_str (Field\<lparr>max_length := Some 200\<rparr>),
     fld ''order_index'' T_int (Field\<lparr>dflt := Some (VInt 0)\<rparr>),
     fld ''is_active'' T_bool (Field\<lparr>dflt := Some (VBool True)\<rparr>),
     fld ''created_at'' T_datetime (Field\<lparr>default_factory := Some Utcnow\<rparr>)]\<rparr>"

text \<open>\<open>InductionContent\<close>, lines 223-237.\<close>

definition InductionContent :: model where
  "InductionContent = \<lparr>cls_name = ''InductionContent'', tablename = Some ''induction_content'', model_fields = [
     fld ''id'' (T_Optional T_int) (Field\<lparr>dflt := Some VNone, primary_key := True\<rparr>),
     fld ''section_id'' T_int (Field\<lparr>foreign_key := Some ''induction_sections.id''\<rparr>),
     fld ''content_type'' (T_Enum ContentType_cls) Field,
     fld ''title'' (T_Optional T_str)
       (Field\<lparr>dflt := Some VNone, max_length := Some 200\<rparr>),
     fld ''content'' (T_Optional T_str)
       (Field\<lparr>dflt := Some VNone, max_length := Some 10000\<rparr>),
     fld ''url'' (T_Optional T_str)
       (Field\<lparr>dflt := Some VNone, max_length := Some 500\<rparr>),
     fld ''file_path'' (T_Optional T_str)
       (Field\<lparr>dflt := Some VNone, max_length := Some 500\<rparr>),
     fld ''embed_code'' (T_Optional T_str)
       (Field\<lparr>dflt := Some VNone, max_length := Some 2000\<rparr>),
     fld ''content_metadata'' T_Dict_str_Any
       (Field\<lparr>dflt := Some (VDict []), sa_column_JSON := True\<rparr>),
     fld ''order_index'' T_int (Field\<lparr>dflt := Some (VInt 0)\<rparr>),
     fld ''is_active'' T_bool (Field\<lparr>dflt := Some (VBool True)\<rparr>),
     fld ''created_at'' T_datetime (Field\<lparr>default_factory := Some Utcnow\<rparr>)]\<rparr>"

text \<open>\<open>InductionProgress\<close>, lines 244-254.\<close>

definition InductionProgress :: model where
  "InductionProgress = \<lparr>cls_name = ''InductionProgress'', tablename = Some ''induction_progress'', model_fields = [
     fld ''id'' (T_Optional T_int) (Field\<lparr>dflt := Some VNone, primary_key := True\<rparr>),
     fld ''user_id'' T_int (Field\<lparr>foreign_key := Some ''users.id''\<rparr>),
     fld ''chapter_id'' T_int (Field\<lparr>foreign_key := Some ''induction_chapters.id''\<rparr>),
     fld ''status'' (T_Enum InductionStatus_cls)
       (Field\<lparr>dflt := Some (VEnum (Induction NOT_STARTED))\<rparr>),
     fld ''started_at'' (T_Optional T_datetime) (Field\<lparr>dflt := Some VNone\<rparr>),
     fld ''completed_at'' (T_Optional T_datetime) (Field\<lparr>dflt := Some VNone\<rparr>),
     fld ''completion_percentage'' T_Decimal
       (Field\<lparr>dflt := Some (VDecimal (Decimal False 0 0)), max_digits := Some 5, decimal_places := Some 2\<rparr>),
     fld ''notes'' (T_Optional T_str)
       (Field\<lparr>dflt := Some VNone, max_length := Some 1000\<rparr>)]\<rparr>"

text \<open>\<open>Dashboard\<close>, lines 261-271.\<close>

definition Dashboard :: model where
  "Dashboard = \<lparr>cls_name = ''Dashboard'', tablename = Some ''dashboards'', model_fields = [
     fld ''id'' (T_Optional T_int) (Field\<lparr>dflt := Some VNone, primary_key := True\<rparr>),
     fld ''project_id'' T_int (Field\<lparr>foreign_key := Some ''projects.id''\<rparr>),
     fld ''name'' T_str (Field\<lparr>max_length := Some 200\<rparr>),
     fld ''type'' T_str (Field\<lparr>max_length := Some 50\<rparr>),
     fld ''configuration'' T_Dict_str_Any
       (Field\<lparr>dflt := Some (VDict []), sa_column_JSON := True\<rparr>),
     fld ''required_roles'' T_List_str
       (Field\<lparr>dflt := Some (VList []), sa_column_JSON := True\<rparr>),
     fld ''is_active'' T_bool (Field\<lparr>dflt := Some (VBool True)\<rparr>),
     fld ''created_at'' T_datetime (Field\<lparr>default_factory := Some Utcnow\<rparr>)]\<rparr>"

text \<open>\<open>UserCreate\<close>, lines 278-281.\<close>

definition UserCreate :: model where
  "UserCreate = \<lparr>cls_name = ''UserCreate'', tablename = None, model_fields = [
     fld ''email'' T_str (Field\<lparr>max_length := Some 255\<rparr>),
     fld ''first_name'' T_str (Field\<lparr>max_length := Some 100\<rparr>),
     fld ''last_name'' T_str (Field\<lparr>max_length := Some 100\<rparr>)]\<rparr>"

text \<open>\<open>UserUpdate\<close>, lines 284-287.\<close>

definition UserUpdate :: model where
  "UserUpdate = \<lparr>cls_name = ''UserUpdate'', tablename = None, model_fields = [
     fld ''first_name'' (T_Optional T_str)
       (Field\<lparr>dflt := Some VNone, max_length := Some 100\<rparr>),
     fld ''last_name'' (T_Optional T_str)
       (Field\<lparr>dflt := Some VNone, max_length := Some 100\<rparr>),
     fld ''is_active'' (T_Optional T_bool) (Field\<lparr>dflt := Some VNone\<rparr>)]\<rparr>"

text \<open>\<open>ProjectCreate\<close>, lines 290-295.\<close>

definition ProjectCreate :: model where
  "ProjectCreate = \<lparr>cls_name = ''ProjectCreate'', tablename = None, model_fields = [
     fld ''name'' T_str (Field\<lparr>max_length := Some 200\<rparr>),
     fld ''description'' T_str
       (Field\<lparr>dflt := Some (VStr []), max_length := Some 2000\<rparr>),
     fld ''code'' T_str (Field\<lparr>max_length := Some 20\<rparr>),
     fld ''start_date'' (T_Optional T_datetime) (Field\<lparr>dflt := Some VNone\<rparr>),
     fld ''end_date'' (T_Optional T_datetime) (Field\<lparr>dflt := Some VNone\<rparr>)]\<rparr>"

text \<open>\<open>ProjectUpdate\<close>, lines 298-304.\<close>

definition ProjectUpdate :: model where
  "ProjectUpdate = \<lparr>cls_name = ''ProjectUpdate'', tablename = None, model_fields = [
     fld ''name'' (T_Optional T_str)
       (Field\<lparr>dflt := Some VNone, max_length := Some 200\<rparr>),
     fld ''description'' (T_Optional T_str)
       (Field\<lparr>dflt := Some VNone, max_length := Some 2000\<rparr>),
     fld ''start_date'' (T_Optional T_datetime) (Field\<lparr>dflt := Some VNone\<rparr>),
     fld ''end_date'' (T_Optional T_datetime) (Field\<lparr>dflt := Some VNone\<rparr>),
     fld ''is_active'' (T_Optional T_bool) (Field\<lparr>dflt := Some VNone\<rparr>),
     fld ''settings'' (T_Optional T_Dict_str_Any)
       (Field\<lparr>dflt := Some VNone\<rparr>)]\<rparr>"

text \<open>\<open>ProjectMembershipCreate\<close>, lines 307-310.\<close>

definition ProjectMembershipCreate :: model where
  "ProjectMembershipCreate = \<lparr>cls_name = ''ProjectMembershipCreate'', tablename = None, model_fields = [
     fld ''user_id'' T_int Field,
     fld ''project_id'' T_int Field,
     fld ''role'' (T_Enum UserRole_cls)
       (Field\<lparr>dflt := Some (VEnum (Role TEAM_MEMBER))\<rparr>)]\<rparr>"

text \<open>\<open>ToolCreate\<close>, lines 313-320.\<close>

definition ToolCreate :: model where
  "ToolCreate = \<lparr>cls_name = ''ToolCreate'', tablename = None, model_fields = [
     fld ''name'' T_str (Field\<lparr>max_length := Some 200\<rparr>),
     fld ''description'' T_str
       (Field\<lparr>dflt := Some (VStr []), max_length := Some 1000\<rparr>),
     fld ''category'' (T_Enum ToolCategory_cls) Field,
     fld ''icon_url'' (T_Optional T_str)
       (Field\<lparr>dflt := Some VNone, max_length := Some 500\<rparr>),
     fld ''external_url'' (T_Optional T_str)
       (Field\<lparr>dflt := Some VNone, max_length := Some 500\<rparr>),
     fld ''is_embeddable'' T_bool (Field\<lparr>dflt := Some (VBool False)\<rparr>),
     fld ''embed_config'' T_Dict_str_Any (Field\<lparr>dflt := Some (VDict [])\<rparr>)]\<rparr>"

text \<open>\<open>NewStarterRequestCreate\<close>, lines 323-333.\<close>

definition NewStarterRequestCreate :: model where
  "NewStarterRequestCreate = \<lparr>cls_name = ''NewStarterRequestCreate'', tablename = None, model_fields = [
     fld ''project_id'' T_int Field,
     fld ''starter_email'' T_str (Field\<lparr>max_length := Some 255\<rparr>),
     fld ''starter_first_name'' T_str (Field\<lparr>max_length := Some 100\<rparr>),
     fld ''starter_last_name'' T_str (Field\<lparr>max_length := Some 100\<rparr>),
     fld ''start_date'' T_datetime Field,
     fld ''role'' (T_Enum UserRole_cls)
       (Field\<lparr>dflt := Some (VEnum (Role TEAM_MEMBER))\<rparr>),
     fld ''department'' (T_Optional T_str)
       (Field\<lparr>dflt := Some VNone, max_length := Some 100\<rparr>),
     fld ''position'' (T_Optional T_str)
       (Field\<lparr>dflt := Some VNone, max_length := Some 100\<rparr>),
     fld ''line_manager'' (T_Optional T_str)
       (Field\<lparr>dflt := Some VNone, max_length := Some 200\<rparr>),
     fld ''notes'' (T_Optional T_str)
       (Field\<lparr>dflt := Some VNone, max_length := Some 1000\<rparr>)]\<rparr>"

text \<open>\<open>OnboardingDetailsCreate\<close>, lines 336-347.\<close>

definition OnboardingDetailsCreate :: model where
  "OnboardingDetailsCreate = \<lparr>cls_name = ''OnboardingDetailsCreate'', tablename = None, model_fields = [
     fld ''request_id'' T_int Field,
     fld ''phone_number'' (T_Optional T_str)
       (Field\<lparr>dflt := Some VNone, max_length := Some 20\<rparr>),
     fld ''address'' (T_Optional T_str)
       (Field\<lparr>dflt := Some VNone, max_length := Some 500\<rparr>),
     fld ''emergency_contact_name'' (T_Optional T_str)
       (Field\<lparr>dflt := Some VNone, max_length := Some 200\<rparr>),
     fld ''emergency_contact_phone'' (T_Optional T_str)
       (Field\<lparr>dflt := Some VNone, max_length := Some 20\<rparr>),
     fld ''previous_experience'' (T_Optional T_str)
       (Field\<lparr>dflt := Some VNone, max_length := Some 2000\<rparr>),
     fld ''skills'' T_List_str (Field\<lparr>dflt := Some (VList [])\<rparr>),
     fld ''certifications'' T_List_str (Field\<lparr>dflt := Some (VList [])\<rparr>),
     fld ''accessibility_requirements'' (T_Optional T_str)
       (Field\<lparr>dflt := Some VNone, max_length := Some 1000\<rparr>),
     fld ''dietary_requirements'' (T_Optional T_str)
       (Field\<lparr>dflt := Some VNone, max_length := Some 500\<rparr>),
     fld ''additional_info'' T_Dict_str_Any (Field\<lparr>dflt := Some (VDict [])\<rparr>)]\<rparr>"

text \<open>\<open>InductionChapterCreate\<close>, lines 350-355.\<close>

definition InductionChapterCreate :: model where
  "InductionChapterCreate = \<lparr>cls_name = ''InductionChapterCreate'', tablename = None, model_fields = [
     fld ''project_id'' T_int Field,
     fld ''title'' T_str (Field\<lparr>max_length := Some 200\<rparr>),
     fld ''description'' (T_Optional T_str)
       (Field\<lparr>dflt := Some VNone, max_length := Some 1000\<rparr>),
     fld ''order_index'' T_int (Field\<lparr>dflt := Some (VInt 0)\<rparr>),
     fld ''is_required'' T_bool (Field\<lparr>dflt := Some (VBool True)\<rparr>)]\<rparr>"

text \<open>\<open>InductionSectionCreate\<close>, lines 358-361.\<close>

definition InductionSectionCreate :: model where
  "InductionSectionCreate = \<lparr>cls_name = ''InductionSectionCreate'', tablename = None, model_fields = [
     fld ''chapter_id'' T_int Field,
     fld ''title'' T_str (Field\<lparr>max_length := Some 200\<rparr>),
     fld ''order_index'' T_int (Field\<lparr>dflt := Some (VInt 0)\<rparr>)]\<rparr>"

text \<open>\<open>InductionContentCreate\<close>, lines 364-373.\<close>

definition InductionContentCreate :: model where
  "InductionContentCreate = \<lparr>cls_name = ''InductionContentCreate'', tablename = None, model_fields = [
     fld ''section_id'' T_int Field,
     fld ''content_type'' (T_Enum ContentType_cls) Field,
     fld ''title'' (T_Optional T_str)
       (Field\<lparr>dflt := Some VNone, max_length := Some 200\<rparr>),
     fld ''content'' (T_Optional T_str)
       (Field\<lparr>dflt := Some VNone, max_length := Some 10000\<rparr>),
     fld ''url'' (T_Optional T_str)
       (Field\<lparr>dflt := Some VNone, max_length := Some 500\<rparr>),
     fld ''file_path'' (T_Optional T_str)
       (Field\<lparr>dflt := Some VNone, max_length := Some 500\<rparr>),
     fld ''embed_code'' (T_Optional T_str)
       (Field\<lparr>dflt := Some VNone, max_length := Some 2000\<rparr>),
     fld ''content_metadata'' T_Dict_str_Any (Field\<lparr>dflt := Some (VDict [])\<rparr>),
     fld ''order_index'' T_int (Field\<lparr>dflt := Some (VInt 0)\<rparr>)]\<rparr>"

text \<open>\<open>DashboardCreate\<close>, lines 376-381.\<close>

definition DashboardCreate :: model where
  "DashboardCreate = \<lparr>cls_name = ''DashboardCreate'', tablename = None, model_fields = [
     fld ''project_id'' T_int Field,
     fld ''name'' T_str (Field\<lparr>max_length := Some 200\<rparr>),
     fld ''type'' T_str (Field\<lparr>max_length := Some 50\<rparr>),
     fld ''configuration'' T_Dict_str_Any (Field\<lparr>dflt := Some (VDict [])\<rparr>),
     fld ''required_roles'' T_List_str (Field\<lparr>dflt := Some (VList [])\<rparr>)]\<rparr>"

definition table_models :: "model list" where
  "table_models = [User, Project, ProjectMembership, Tool, ProjectTool, NewStarterRequest,
     OnboardingDetails, InductionChapter, InductionSection, InductionContent, InductionProgress, Dashboard]"

definition schema_models :: "model list" where
  "schema_models = [UserCreate, UserUpdate, ProjectCreate, ProjectUpdate, ProjectMembershipCreate,
     ToolCreate, NewStarterRequestCreate, OnboardingDetailsCreate, InductionChapterCreate,
     InductionSectionCreate, InductionContentCreate, DashboardCreate]"

definition all_models :: "model list" where
  "all_models = table_models @ schema_models"

section \<open>Persistence and updates\<close>

text \<open>
  The module declares constraints for a store (\<open>unique=True\<close>, \<open>foreign_key="..."\<close>,
  \<open>primary_key=True\<close>) and shapes for updates, but the code that inserts a row or applies an
  update is not part of it. The definitions of this section follow sections 3, 4.1, 6 and 7
  of the specification; they read the constraints from the classes above.
\<close>

text \<open>A store holds, for each table name, the rows inserted so far, oldest first.\<close>

type_synonym store = "string \<Rightarrow> row list"

definition empty_store :: store where
  "empty_store = (\<lambda>t. [])"

text \<open>\<open>"users.id"\<close> names the table \<open>users\<close> and its column \<open>id\<close>.\<close>

definition fk_target :: "string \<Rightarrow> string \<times> string" where
  "fk_target s =
     (takeWhile (\<lambda>c. c \<noteq> CHR ''.'') s, drop 1 (dropWhile (\<lambda>c. c \<noteq> CHR ''.'') s))"

definition has_value :: "string \<Rightarrow> val \<Rightarrow> row list \<Rightarrow> bool" where
  "has_value column v rows = list_ex (\<lambda>r. r column = Some v) rows"

text \<open>
  Modelled from the spec: the uniqueness check of the store, which is not in the module.
  "Fields marked unique must fail at persistence time with a ConflictError if a colliding
  value is inserted": the new row collides when a stored row of the same table holds the same
  value in a field declared \<open>unique=True\<close>.
\<close>

definition collides :: "field \<Rightarrow> row list \<Rightarrow> row \<Rightarrow> bool" where
  "collides f rows r =
     (unique (info f) \<and> (case r (name f) of None \<Rightarrow> False | Some v \<Rightarrow> has_value (name f) v rows))"

text \<open>
  Modelled from the spec: the reference check of the store, which is not in the module.
  "Foreign-key fields must reference an existing row of the target entity; a dangling
  reference fails with a ReferenceError at persistence time."
\<close>

definition dangling :: "field \<Rightarrow> store \<Rightarrow> row \<Rightarrow> bool" where
  "dangling f st r =
     (case foreign_key (info f) of
        None \<Rightarrow> False
      | Some target \<Rightarrow>
          (case fk_target target of
             (t, column) \<Rightarrow>
               (case r (name f) of None \<Rightarrow> True | Some v \<Rightarrow> \<not> has_value column v (st t))))"

definition row_id :: "row \<Rightarrow> int" where
  "row_id r = (case r ''id'' of Some (VInt i) \<Rightarrow> i | _ \<Rightarrow> 0)"

definition next_id :: "row list \<Rightarrow> int" where
  "next_id rows = 1 + fold max (map row_id rows) 0"

text \<open>
  Modelled from the spec: the insertion of a row, which is not in the module. The store
  "enforces unique and foreign-key constraints, and assigns id ... on insert" (section 6).
  Uniqueness is checked before the references, as a relational store does (the unique index
  is hit when the row is written, the reference when the statement ends); the specification
  does not say which error a row with both defects gets. On an error the store is unchanged.
  A class without a table cannot be inserted.
\<close>

definition persist :: "model \<Rightarrow> store \<Rightarrow> row \<Rightarrow> (error + row) \<times> store" where
  "persist m st r =
     (case tablename m of
        None \<Rightarrow> (Inl NotATable, st)
      | Some t \<Rightarrow>
          if list_ex (\<lambda>f. collides f (st t) r) (model_fields m) then (Inl ConflictError, st)
          else if list_ex (\<lambda>f. dangling f st r) (model_fields m) then (Inl ReferenceError, st)
          else (let r' = r(''id'' \<mapsto> VInt (next_id (st t)))
                in (Inr r', st(t := st t @ [r']))))"

text \<open>
  Modelled from the spec: creation, which is not in the module. The payload is validated
  "before any persistence attempt" (section 7), and "on success" the row is persisted
  (section 6).
\<close>

definition create ::
  "library \<Rightarrow> model \<Rightarrow> store \<Rightarrow> int \<Rightarrow> payload \<Rightarrow> (error + row) \<times> store" where
  "create lib m st now p =
     (case model_validate lib m now p of
        Inl e \<Rightarrow> (Inl e, st)
      | Inr r \<Rightarrow> persist m st r)"

text \<open>
  Modelled from the spec: the application of an update payload to a stored row, which is not
  in the module. "Only fields explicitly present in the update payload overwrite the persisted
  row; absent fields leave the stored value untouched" (section 4.1). The payload is validated
  against the update shape first; a key of the payload that the shape does not declare is
  ignored by validation and so changes nothing.
\<close>

definition apply_update ::
  "library \<Rightarrow> model \<Rightarrow> int \<Rightarrow> row \<Rightarrow> payload \<Rightarrow> error + row" where
  "apply_update lib shape now r p =
     (case model_validate lib shape now p of
        Inl e \<Rightarrow> Inl e
      | Inr v \<Rightarrow>
          Inr (\<lambda>k. if p k = None then r k
                   else (case v k of None \<Rightarrow> r k | Some x \<Rightarrow> Some x)))"

section \<open>Vocabulary of the properties\<close>

text \<open>
  The definitions of this section are not part of the program: they are what the properties
  below are stated with.
\<close>

text \<open>The field of a class with a given name, and what validation says about that field.\<close>

definition field_named :: "model \<Rightarrow> string \<Rightarrow> field option" where
  "field_named m n = find (\<lambda>f. name f = n) (model_fields m)"

definition field_result ::
  "library \<Rightarrow> model \<Rightarrow> int \<Rightarrow> payload \<Rightarrow> string \<Rightarrow> (reason + val) option" where
  "field_result lib m now p n = map_option (\<lambda>f. validate_field lib now f (p n)) (field_named m n)"

text \<open>The language of a pattern, as a set of strings.\<close>

inductive_set star :: "string set \<Rightarrow> string set" for A :: "string set" where
  star_nil: "[] \<in> star A"
| star_app: "u \<in> A \<Longrightarrow> v \<in> star A \<Longrightarrow> u @ v \<in> star A"

fun lang :: "rexp \<Rightarrow> string set" where
  "lang Nothing = {}"
| "lang Empty = {[]}"
| "lang (Lit c) = {[c]}"
| "lang (CharClass items) = {[c] | c. in_class c items}"
| "lang (Seq r s) = {u @ v | u v. u \<in> lang r \<and> v \<in> lang s}"
| "lang (Alt r s) = lang r \<union> lang s"
| "lang (Star r) = star (lang r)"
| "lang (Plus r) = {u @ v | u v. u \<in> lang r \<and> v \<in> star (lang r)}"

text \<open>
  The three character classes of the email pattern, and the shape of the strings it matches,
  read off from left to right: a non-empty run of the first class, an at sign, a non-empty run
  of the second class, a dot, and a non-empty rest of the third class.
\<close>

definition local_class :: "cls_item list" where
  "local_class = [Range CHR ''a'' CHR ''z'', Range CHR ''A'' CHR ''Z'',
     Range CHR ''0'' CHR ''9'', Single CHR ''_'', Single CHR ''.'', Single CHR ''+'', Single CHR ''-'']"

definition domain_class :: "cls_item list" where
  "domain_class = [Range CHR ''a'' CHR ''z'', Range CHR ''A'' CHR ''Z'',
     Range CHR ''0'' CHR ''9'', Single CHR ''-'']"

definition tld_class :: "cls_item list" where
  "tld_class = [Range CHR ''a'' CHR ''z'', Range CHR ''A'' CHR ''Z'',
     Range CHR ''0'' CHR ''9'', Single CHR ''-'', Single CHR ''.'']"

definition email_shape :: "string \<Rightarrow> bool" where
  "email_shape s =
     (let l = takeWhile (\<lambda>c. in_class c local_class) s;
          r1 = dropWhile (\<lambda>c. in_class c local_class) s;
          d = takeWhile (\<lambda>c. in_class c domain_class) (tl r1);
          r2 = dropWhile (\<lambda>c. in_class c domain_class) (tl r1)
      in l \<noteq> [] \<and> r1 \<noteq> [] \<and> hd r1 = CHR ''@'' \<and> d \<noteq> [] \<and> r2 \<noteq> [] \<and> hd r2 = CHR ''.'' \<and>
         tl r2 \<noteq> [] \<and> list_all (\<lambda>c. in_class c tld_class) (tl r2))"

text \<open>Sample inputs on which the properties are evaluated.\<close>

definition starter_payload :: "string \<Rightarrow> payload" where
  "starter_payload s = [''project_id'' \<mapsto> VInt 1, ''starter_email'' \<mapsto> VStr s,
     ''starter_first_name'' \<mapsto> VStr ''Ada'', ''starter_last_name'' \<mapsto> VStr ''Byron'',
     ''start_date'' \<mapsto> VDatetime 20]"

definition user_payload :: "string \<Rightarrow> payload" where
  "user_payload e = [''email'' \<mapsto> VStr e, ''first_name'' \<mapsto> VStr ''Ada'',
     ''last_name'' \<mapsto> VStr ''Lovelace'']"

definition project_payload :: "string \<Rightarrow> payload" where
  "project_payload c = [''name'' \<mapsto> VStr ''Portal'', ''code'' \<mapsto> VStr c]"

text \<open>Whether an annotation is an enumeration class.\<close>

definition is_enum :: "annotation \<Rightarrow> bool" where
  "is_enum a = (case a of T_Enum c \<Rightarrow> True | _ \<Rightarrow> False)"

definition membership_payload :: "string \<Rightarrow> payload" where
  "membership_payload r = [''user_id'' \<mapsto> VInt 1, ''project_id'' \<mapsto> VInt 1, ''role'' \<mapsto> VStr r]"

text \<open>
  The classes declared with \<open>table=False\<close> are the create shapes and the two update shapes.
\<close>

definition create_models :: "model list" where
  "create_models = [UserCreate, ProjectCreate, ProjectMembershipCreate, ToolCreate,
     NewStarterRequestCreate, OnboardingDetailsCreate, InductionChapterCreate,
     InductionSectionCreate, InductionContentCreate, DashboardCreate]"

definition update_models :: "model list" where
  "update_models = [UserUpdate, ProjectUpdate]"

text \<open>
  The defaults that claim C7 lists: class by class, the fields it names with their defaults.
\<close>

definition listed_defaults :: "(model \<times> (string \<times> val) list) list" where
  "listed_defaults =
     [(User, [(''is_active'', VBool True)]),
      (Project, [(''is_active'', VBool True), (''settings'', VDict [])]),
      (ProjectMembership, [(''is_active'', VBool True), (''role'', VEnum (Role TEAM_MEMBER))]),
      (Tool, [(''is_active'', VBool True), (''embed_config'', VDict [])]),
      (ProjectTool, [(''configuration'', VDict []), (''required_roles'', VList [])]),
      (NewStarterRequest, [(''role'', VEnum (Role TEAM_MEMBER)),
         (''status'', VEnum (Onboarding PENDING))]),
      (OnboardingDetails, [(''skills'', VList []), (''certifications'', VList []),
         (''additional_info'', VDict [])]),
      (InductionChapter, [(''is_active'', VBool True)]),
      (InductionSection, [(''is_active'', VBool True)]),
      (InductionContent, [(''is_active'', VBool True), (''content_metadata'', VDict [])]),
      (InductionProgress, [(''status'', VEnum (Induction NOT_STARTED))]),
      (Dashboard, [(''is_active'', VBool True), (''configuration'', VDict []),
         (''required_roles'', VList [])]),
      (ProjectMembershipCreate, [(''role'', VEnum (Role TEAM_MEMBER))]),
      (ToolCreate, [(''embed_config'', VDict [])]),
      (NewStarterRequestCreate, [(''role'', VEnum (Role TEAM_MEMBER))]),
      (OnboardingDetailsCreate, [(''skills'', VList []), (''certifications'', VList []),
         (''additional_info'', VDict [])]),
      (InductionContentCreate, [(''content_metadata'', VDict [])]),
      (DashboardCreate, [(''configuration'', VDict []), (''required_roles'', VList [])])]"

text \<open>
  The same as a check on one field of one class: whatever the class, a field with one of
  the listed names has the listed default.
\<close>

definition declared_default :: "model \<Rightarrow> field \<Rightarrow> bool" where
  "declared_default m f =
     ((name f = ''is_active'' \<longrightarrow> dflt (info f) = Some (VBool True)) \<and>
      (name f = ''role'' \<longrightarrow> dflt (info f) = Some (VEnum (Role TEAM_MEMBER))) \<and>
      (name f = ''status'' \<and> cls_name m = ''NewStarterRequest'' \<longrightarrow>
         dflt (info f) = Some (VEnum (Onboarding PENDING))) \<and>
      (name f = ''status'' \<and> cls_name m = ''InductionProgress'' \<longrightarrow>
         dflt (info f) = Some (VEnum (Induction NOT_STARTED))) \<and>
      (name f \<in> set [''settings'', ''embed_config'', ''configuration'', ''content_metadata'',
                      ''additional_info''] \<longrightarrow> dflt (info f) = Some (VDict [])) \<and>
      (name f \<in> set [''skills'', ''certifications'', ''required_roles''] \<longrightarrow>
         dflt (info f) = Some (VList [])))"

text \<open>
  A payload populates a class when it omits every field with a declared default and gives
  every other field a value that the field accepts (a field with a default factory, which
  accepts being omitted, may be omitted too).
\<close>

definition populates :: "library \<Rightarrow> int \<Rightarrow> payload \<Rightarrow> model \<Rightarrow> bool" where
  "populates lib now p m =
     list_all (\<lambda>f. case dflt (info f) of
                      Some d \<Rightarrow> p (name f) = None
                    | None \<Rightarrow> (case validate_field lib now f (p (name f)) of
                                 Inl e \<Rightarrow> False | Inr v \<Rightarrow> True))
       (model_fields m)"

text \<open>
  For every class, a payload that populates it: a sample value for each field without a
  default and without a default factory.
\<close>

fun sample_value :: "annotation \<Rightarrow> val" where
  "sample_value T_int = VInt 1"
| "sample_value T_str = VStr ''a@example.com''"
| "sample_value T_bool = VBool True"
| "sample_value T_datetime = VDatetime 0"
| "sample_value T_Decimal = VDecimal (Decimal False 0 0)"
| "sample_value (T_Enum c) = VStr (enum_value (hd (enum_members c)))"
| "sample_value T_Dict_str_Any = VDict []"
| "sample_value T_List_str = VList []"
| "sample_value (T_Optional a) = VNone"

definition sample_payload :: "model \<Rightarrow> payload" where
  "sample_payload m =
     map_of (map (\<lambda>f. (name f, sample_value (annotation f)))
       (filter (\<lambda>f. dflt (info f) = None \<and> default_factory (info f) = None) (model_fields m)))"

definition dashboard_payload :: payload where
  "dashboard_payload = [''project_id'' \<mapsto> VInt 1, ''name'' \<mapsto> VStr ''Board'',
     ''type'' \<mapsto> VStr ''issues'']"

text \<open>
  Two properties of the value of a decimal number, whatever its representation. The value
  \<open>coefficient * 10 ^ exponent\<close> has at most \<open>k\<close> decimal places when \<open>10 ^ k\<close> times the value
  is a whole number, and its magnitude is below \<open>10 ^ k\<close> when the absolute value is.
\<close>

definition at_most_places :: "nat \<Rightarrow> decimal \<Rightarrow> bool" where
  "at_most_places k d =
     (- int k \<le> exponent d \<or> 10 ^ nat (- exponent d - int k) dvd coefficient d)"

definition magnitude_below :: "nat \<Rightarrow> decimal \<Rightarrow> bool" where
  "magnitude_below k d =
     (if 0 \<le> exponent d then coefficient d * 10 ^ nat (exponent d) < 10 ^ k
      else coefficient d < 10 ^ (k + nat (- exponent d)))"

text \<open>
  The decimals for which the libraries' normalization is exact: at most as many digits as
  the context has precision, an exponent far inside the limits of the context, and zero
  written without a positive exponent (pydantic 2 counts the zeros that a positive exponent
  adds to zero as digits; pydantic 1 does not).
\<close>

definition in_context :: "decimal \<Rightarrow> bool" where
  "in_context d =
     (num_digits (coefficient d) \<le> context_prec \<and>
      - 999000 \<le> exponent d \<and> exponent d \<le> 999000 \<and>
      (coefficient d = 0 \<longrightarrow> exponent d \<le> 0))"

text \<open>\<open>999.99000000000000000000000000001\<close>, a number of 32 digits and 29 decimal places.\<close>

definition long_decimal :: decimal where
  "long_decimal = Decimal False 99999000000000000000000000000001 (- 29)"

definition progress_payload :: "decimal \<Rightarrow> payload" where
  "progress_payload d = [''user_id'' \<mapsto> VInt 1, ''chapter_id'' \<mapsto> VInt 1,
     ''completion_percentage'' \<mapsto> VDecimal d]"

text \<open>A stored user and a stored project, and the annotations the update shapes use.\<close>

definition user_row :: row where
  "user_row = [''id'' \<mapsto> VInt 1, ''email'' \<mapsto> VStr ''a@example.com'',
     ''first_name'' \<mapsto> VStr ''Ada'', ''last_name'' \<mapsto> VStr ''Lovelace'',
     ''is_active'' \<mapsto> VBool True, ''created_at'' \<mapsto> VDatetime 0, ''updated_at'' \<mapsto> VNone]"

definition project_row :: row where
  "project_row = [''id'' \<mapsto> VInt 1, ''name'' \<mapsto> VStr ''Portal'', ''description'' \<mapsto> VStr [],
     ''code'' \<mapsto> VStr ''PRJ1'', ''start_date'' \<mapsto> VNone, ''end_date'' \<mapsto> VNone,
     ''is_active'' \<mapsto> VBool True, ''created_by_id'' \<mapsto> VInt 1, ''created_at'' \<mapsto> VDatetime 0,
     ''updated_at'' \<mapsto> VNone, ''settings'' \<mapsto> VDict []]"

definition update_typed :: "annotation \<Rightarrow> bool" where
  "update_typed a = (a \<in> set [T_Optional T_str, T_Optional T_bool, T_Optional T_datetime,
     T_Optional T_Dict_str_Any])"

text \<open>
  Payloads for a project with its owner and for onboarding details, the store after a first
  user was created, the store after a first project was created in it, and the fields that
  claim C3 names as unique.
\<close>

definition owned_project_payload :: "string \<Rightarrow> payload" where
  "owned_project_payload c = [''name'' \<mapsto> VStr ''Portal'', ''code'' \<mapsto> VStr c,
     ''created_by_id'' \<mapsto> VInt 1]"


definition store_with_user :: store where
  "store_with_user = snd (create Pydantic_1 User empty_store 0 (user_payload ''a@example.com''))"

definition store_with_project :: store where
  "store_with_project =
     snd (create Pydantic_1 Project store_with_user 1 (owned_project_payload ''PRJ1''))"



definition unique_fields :: "(string \<times> string) list" where
  "unique_fields = [(''User'', ''email''), (''Project'', ''code''),
     (''OnboardingDetails'', ''request_id'')]"

section \<open>The pattern matcher\<close>

lemma nullable_lang: "nullable r \<longleftrightarrow> [] \<in> lang r"
  by (induction r) (auto intro: star.intros)

lemma star_cons:
  "c # w \<in> star A \<longleftrightarrow> (\<exists>u v. w = u @ v \<and> c # u \<in> A \<and> v \<in> star A)"
proof
  assume "c # w \<in> star A"
  then show "\<exists>u v. w = u @ v \<and> c # u \<in> A \<and> v \<in> star A"
  proof (induction "c # w" rule: star.induct)
    case (star_app u v)
    then show ?case by (cases u) auto
  qed
next
  assume "\<exists>u v. w = u @ v \<and> c # u \<in> A \<and> v \<in> star A"
  then obtain u v where "w = u @ v" "c # u \<in> A" "v \<in> star A" by blast
  then show "c # w \<in> star A" using star.star_app [of "c # u" A v] by simp
qed

lemma lang_deriv: "w \<in> lang (deriv c r) \<longleftrightarrow> c # w \<in> lang r"
proof (induction r arbitrary: w)
  case (Seq r s)
  then show ?case
    by (auto simp: nullable_lang Cons_eq_append_conv)
next
  case (Star r)
  then show ?case by (auto simp: star_cons)
next
  case (Plus r)
  then show ?case
    by (auto simp: Cons_eq_append_conv star_cons intro: star.intros) 
qed (auto simp: Cons_eq_append_conv)

lemma matches_lang: "matches r s \<longleftrightarrow> s \<in> lang r"
  by (induction s arbitrary: r) (auto simp: nullable_lang lang_deriv)


lemma email_regex_classes:
  "email_regex =
     Seq (Plus (CharClass local_class))
    (Seq (Lit CHR ''@'')
    (Seq (Plus (CharClass domain_class))
    (Seq (Lit CHR ''.'') (Plus (CharClass tld_class)))))"
  by (simp add: email_regex_def local_class_def domain_class_def tld_class_def)

lemma star_class: "w \<in> star {[c] | c. P c} \<longleftrightarrow> (\<forall>c \<in> set w. P c)"
proof
  assume "w \<in> star {[c] | c. P c}"
  then show "\<forall>c \<in> set w. P c"
    by (induction rule: star.induct) auto
next
  assume "\<forall>c \<in> set w. P c"
  then show "w \<in> star {[c] | c. P c}"
  proof (induction w)
    case Nil
    show ?case by (rule star.star_nil)
  next
    case (Cons a w)
    then have "[a] \<in> {[c] | c. P c}" and "w \<in> star {[c] | c. P c}" by auto
    then have "[a] @ w \<in> star {[c] | c. P c}" by (rule star.star_app)
    then show ?case by simp
  qed
qed

lemma lang_plus_class:
  "w \<in> lang (Plus (CharClass C)) \<longleftrightarrow> w \<noteq> [] \<and> (\<forall>c \<in> set w. in_class c C)"
proof -
  have "w \<in> lang (Plus (CharClass C)) \<longleftrightarrow>
      (\<exists>a v. w = a # v \<and> in_class a C \<and> v \<in> star {[c] | c. in_class c C})"
  proof
    assume "w \<in> lang (Plus (CharClass C))"
    then show "\<exists>a v. w = a # v \<and> in_class a C \<and> v \<in> star {[c] | c. in_class c C}"
      by auto
  next
    assume "\<exists>a v. w = a # v \<and> in_class a C \<and> v \<in> star {[c] | c. in_class c C}"
    then obtain a v where "w = [a] @ v" "in_class a C" "v \<in> star {[c] | c. in_class c C}"
      by auto
    then show "w \<in> lang (Plus (CharClass C))"
      unfolding lang.simps by blast
  qed
  also have "\<dots> \<longleftrightarrow> (\<exists>a v. w = a # v \<and> in_class a C \<and> (\<forall>c \<in> set v. in_class c C))"
    by (simp add: star_class)
  also have "\<dots> \<longleftrightarrow> w \<noteq> [] \<and> (\<forall>c \<in> set w. in_class c C)"
    by (cases w) auto
  finally show ?thesis .
qed

lemma lang_email:
  "s \<in> lang email_regex \<longleftrightarrow>
     (\<exists>l d t. s = l @ CHR ''@'' # d @ CHR ''.'' # t \<and>
        l \<noteq> [] \<and> (\<forall>c \<in> set l. in_class c local_class) \<and>
        d \<noteq> [] \<and> (\<forall>c \<in> set d. in_class c domain_class) \<and>
        t \<noteq> [] \<and> (\<forall>c \<in> set t. in_class c tld_class))"
proof -
  have "s \<in> lang email_regex \<longleftrightarrow>
      (\<exists>l d t. s = l @ [CHR ''@''] @ d @ [CHR ''.''] @ t \<and>
         l \<in> lang (Plus (CharClass local_class)) \<and>
         d \<in> lang (Plus (CharClass domain_class)) \<and>
         t \<in> lang (Plus (CharClass tld_class)))"
    unfolding email_regex_classes lang.simps(5) [of "Plus (CharClass local_class)"]
      lang.simps(5) [of "Lit CHR ''@''"] lang.simps(5) [of "Plus (CharClass domain_class)"]
      lang.simps(5) [of "Lit CHR ''.''"] lang.simps(3)
    by blast
  then show ?thesis unfolding lang_plus_class by simp
qed

lemma at_not_local: "\<not> in_class CHR ''@'' local_class"
  by (simp add: in_class_def local_class_def)

lemma dot_not_domain: "\<not> in_class CHR ''.'' domain_class"
  by (simp add: in_class_def domain_class_def)

lemma email_shape_iff: "matches email_regex s \<longleftrightarrow> email_shape s"
proof
  assume "matches email_regex s"
  then obtain l d t where s: "s = l @ CHR ''@'' # d @ CHR ''.'' # t"
    and l: "l \<noteq> []" "\<forall>c \<in> set l. in_class c local_class"
    and d: "d \<noteq> []" "\<forall>c \<in> set d. in_class c domain_class"
    and t: "t \<noteq> []" "\<forall>c \<in> set t. in_class c tld_class"
    by (auto simp: matches_lang lang_email)
  have tl: "takeWhile (\<lambda>c. in_class c local_class) s = l"
    and dl: "dropWhile (\<lambda>c. in_class c local_class) s = CHR ''@'' # d @ CHR ''.'' # t"
    using l(2) at_not_local by (simp_all add: s takeWhile_append2 dropWhile_append2)
  have td: "takeWhile (\<lambda>c. in_class c domain_class) (d @ CHR ''.'' # t) = d"
    and dd: "dropWhile (\<lambda>c. in_class c domain_class) (d @ CHR ''.'' # t) = CHR ''.'' # t"
    using d(2) dot_not_domain by (simp_all add: takeWhile_append2 dropWhile_append2)
  show "email_shape s"
    using l(1) d t dot_not_domain by (simp add: email_shape_def tl dl td dd list_all_iff)
next
  assume e: "email_shape s"
  define l where "l = takeWhile (\<lambda>c. in_class c local_class) s"
  define r1 where "r1 = dropWhile (\<lambda>c. in_class c local_class) s"
  define d where "d = takeWhile (\<lambda>c. in_class c domain_class) (tl r1)"
  define r2 where "r2 = dropWhile (\<lambda>c. in_class c domain_class) (tl r1)"
  from e have p: "l \<noteq> []" "r1 \<noteq> []" "hd r1 = CHR ''@''" "d \<noteq> []" "r2 \<noteq> []"
    "hd r2 = CHR ''.''" "tl r2 \<noteq> []" "list_all (\<lambda>c. in_class c tld_class) (tl r2)"
    by (simp_all add: email_shape_def Let_def l_def r1_def d_def r2_def)
  have "s = l @ r1" by (simp add: l_def r1_def)
  moreover have "r1 = CHR ''@'' # tl r1" using p(2,3) by (cases r1) auto
  moreover have "tl r1 = d @ r2" by (simp add: d_def r2_def)
  moreover have "r2 = CHR ''.'' # tl r2" using p(5,6) by (cases r2) auto
  ultimately have "s = l @ CHR ''@'' # d @ CHR ''.'' # tl r2" by simp
  moreover have "\<forall>c \<in> set l. in_class c local_class"
    unfolding l_def by (auto dest: set_takeWhileD)
  moreover have "\<forall>c \<in> set d. in_class c domain_class"
    unfolding d_def by (auto dest: set_takeWhileD)
  moreover have "\<forall>c \<in> set (tl r2). in_class c tld_class"
    using p(8) by (simp add: list_all_iff)
  ultimately show "matches email_regex s"
    unfolding matches_lang lang_email using p(1,4,7) by blast
qed

lemma email_needs_at: "matches email_regex s \<Longrightarrow> CHR ''@'' \<in> set s"
  by (auto simp: matches_lang lang_email)

lemma re_match_needs_at: "re_match email_regex s \<Longrightarrow> CHR ''@'' \<in> set s"
  unfolding re_match_def using email_needs_at [of s] email_needs_at [of "butlast s"]
  by (auto dest: in_set_butlastD)

lemma matches_pattern_ok: "matches r s \<Longrightarrow> pattern_ok lib r s"
  by (cases lib) (simp_all add: pattern_ok_def re_match_def)

lemma no_at_pattern_ok:
  "CHR ''@'' \<notin> set s \<Longrightarrow> pattern_ok lib email_regex s \<longleftrightarrow> lib = Pydantic_2"
  using re_match_needs_at [of s] by (cases lib) (auto simp: pattern_ok_def)

section \<open>The validator, field by field\<close>

lemma validate_fields_errs:
  "(n, e) \<in> set (fst (validate_fields lib now fs p)) \<longleftrightarrow>
     (\<exists>f \<in> set fs. name f = n \<and> validate_field lib now f (p n) = Inl e)"
  by (induction fs) (auto split: prod.splits sum.splits)

lemma validate_fields_row_None:
  "find (\<lambda>f. name f = n) fs = None \<Longrightarrow> snd (validate_fields lib now fs p) n = None"
  by (induction fs) (auto split: prod.splits sum.splits if_splits)

lemma validate_fields_row_Some:
  "find (\<lambda>f. name f = n) fs = Some f \<Longrightarrow> validate_field lib now f (p n) = Inr v \<Longrightarrow>
     snd (validate_fields lib now fs p) n = Some v"
  by (induction fs) (auto split: prod.splits sum.splits if_splits)

lemma model_validate_Inr:
  "model_validate lib m now p = Inr r \<longleftrightarrow>
     fst (validate_fields lib now (model_fields m) p) = [] \<and>
     r = snd (validate_fields lib now (model_fields m) p)"
  by (auto simp: model_validate_def split: prod.splits list.splits)

lemma model_validate_Inl:
  "model_validate lib m now p = Inl e \<longleftrightarrow>
     fst (validate_fields lib now (model_fields m) p) \<noteq> [] \<and>
     e = ValidationError (fst (validate_fields lib now (model_fields m) p))"
  by (auto simp: model_validate_def split: prod.splits list.splits)

lemma find_Some_set: "find P xs = Some x \<Longrightarrow> x \<in> set xs \<and> P x"
  by (induction xs) (auto split: if_splits)

lemma find_distinct_name:
  "distinct (map name fs) \<Longrightarrow> f \<in> set fs \<Longrightarrow> find (\<lambda>g. name g = name f) fs = Some f"
  by (induction fs) (auto simp: image_iff)

text \<open>What validation of the whole payload says about one field, by name.\<close>

lemma errors_field_result:
  assumes "distinct (map name (model_fields m))"
    and "model_validate lib m now p = Inl (ValidationError errs)"
  shows "(n, e) \<in> set errs \<longleftrightarrow> field_result lib m now p n = Some (Inl e)"
proof -
  from assms(2) have errs: "errs = fst (validate_fields lib now (model_fields m) p)"
    by (simp add: model_validate_Inl)
  show ?thesis
  proof
    assume "(n, e) \<in> set errs"
    then obtain f where f: "f \<in> set (model_fields m)" "name f = n"
      "validate_field lib now f (p n) = Inl e"
      unfolding errs validate_fields_errs by blast
    then have "field_named m n = Some f"
      using find_distinct_name [OF assms(1) f(1)] by (simp add: field_named_def)
    with f(3) show "field_result lib m now p n = Some (Inl e)"
      by (simp add: field_result_def)
  next
    assume "field_result lib m now p n = Some (Inl e)"
    then obtain f where "field_named m n = Some f" "validate_field lib now f (p n) = Inl e"
      by (auto simp: field_result_def)
    then show "(n, e) \<in> set errs"
      unfolding errs validate_fields_errs field_named_def
      using find_Some_set [of "\<lambda>f. name f = n" "model_fields m" f] by auto
  qed
qed

lemma valid_field_result:
  assumes "model_validate lib m now p = Inr r"
  shows "field_result lib m now p n = map_option Inr (r n)"
proof (cases "field_named m n")
  case None
  then show ?thesis
    using assms validate_fields_row_None [of n "model_fields m" lib now p]
    by (simp add: field_result_def field_named_def model_validate_Inr)
next
  case (Some f)
  from assms have e: "fst (validate_fields lib now (model_fields m) p) = []"
    and r: "r = snd (validate_fields lib now (model_fields m) p)"
    by (simp_all add: model_validate_Inr)
  from Some have f: "f \<in> set (model_fields m)" "name f = n"
    using find_Some_set [of "\<lambda>f. name f = n"] by (auto simp: field_named_def)
  have "\<not> (\<exists>e. validate_field lib now f (p n) = Inl e)"
    using validate_fields_errs [of n _ lib now "model_fields m" p] e f by auto
  then obtain v where v: "validate_field lib now f (p n) = Inr v"
    by (cases "validate_field lib now f (p n)") auto
  then have "r n = Some v"
    using validate_fields_row_Some [of n "model_fields m" f lib now p v] Some r
    by (simp add: field_named_def)
  with v Some show ?thesis by (simp add: field_result_def)
qed

lemmas model_defs =
  User_def Project_def ProjectMembership_def Tool_def ProjectTool_def NewStarterRequest_def
  OnboardingDetails_def InductionChapter_def InductionSection_def InductionContent_def
  InductionProgress_def Dashboard_def UserCreate_def UserUpdate_def ProjectCreate_def
  ProjectUpdate_def ProjectMembershipCreate_def ToolCreate_def NewStarterRequestCreate_def
  OnboardingDetailsCreate_def InductionChapterCreate_def InductionSectionCreate_def
  InductionContentCreate_def DashboardCreate_def

lemma checked_field:
  "list_all (\<lambda>m. list_all (P m) (model_fields m)) ms \<Longrightarrow> m \<in> set ms \<Longrightarrow>
     f \<in> set (model_fields m) \<Longrightarrow> P m f"
  by (simp add: list_all_iff)

lemmas models_unfold = all_models_def table_models_def schema_models_def

lemma all_models_distinct:
  "m \<in> set all_models \<Longrightarrow> distinct (map name (model_fields m))"
proof -
  have "list_all (\<lambda>m. distinct (map name (model_fields m))) all_models"
    unfolding models_unfold by (simp add: model_defs fld_def)
  then show "m \<in> set all_models \<Longrightarrow> distinct (map name (model_fields m))"
    by (simp add: list_all_iff)
qed

lemmas validate_simps =
  model_validate_def validate_field_def check_str_def check_decimal_def fld_def Field_def

section \<open>No format check on the starter's email\<close>

lemma starter_email_field:
  "m = NewStarterRequestCreate \<or> m = NewStarterRequest \<Longrightarrow>
     field_named m ''starter_email'' = Some (fld ''starter_email'' T_str (Field\<lparr>max_length := Some 255\<rparr>))"
  by (auto simp: field_named_def NewStarterRequestCreate_def NewStarterRequest_def fld_def)

text \<open>
  Claim C9. \<open>starter_email\<close> (lines 147 and 325) declares a maximum length of 255 and no
  pattern. So for every string of length at most 255, email-shaped or not, the validation of a
  \<open>NewStarterRequestCreate\<close> payload (and of a \<open>NewStarterRequest\<close>) that carries it as
  \<open>starter_email\<close> accepts the field with the string unchanged, and no error of a failed
  validation is about that field, whether the library checks patterns or not. \<open>User.email\<close>,
  in contrast, declares the email pattern.
\<close>

theorem starter_email_not_format_validated:
  assumes "m = NewStarterRequestCreate \<or> m = NewStarterRequest"
    and "length s \<le> 255" and "p ''starter_email'' = Some (VStr s)"
  shows "field_result lib m now p ''starter_email'' = Some (Inr (VStr s)) \<and>
    (\<forall>errs e. model_validate lib m now p = Inl (ValidationError errs) \<longrightarrow>
       (''starter_email'', e) \<notin> set errs) \<and>
    map_option (regex \<circ> info) (field_named m ''starter_email'') = Some None \<and>
    map_option (regex \<circ> info) (field_named User ''email'') = Some (Some email_regex)"
proof -
  have m: "m \<in> set all_models"
    using assms(1) by (auto simp: all_models_def table_models_def schema_models_def)
  have r: "field_result lib m now p ''starter_email'' = Some (Inr (VStr s))"
    using assms(2,3) starter_email_field [OF assms(1)]
    by (simp add: field_result_def validate_field_def fld_def check_str_def Field_def)
  have "(''starter_email'', e) \<notin> set errs"
    if "model_validate lib m now p = Inl (ValidationError errs)" for errs e
    using errors_field_result [OF all_models_distinct [OF m] that, of "''starter_email''" e] r
    by simp
  moreover have "map_option (regex \<circ> info) (field_named m ''starter_email'') = Some None"
    using starter_email_field [OF assms(1)] by (simp add: fld_def Field_def)
  moreover have "map_option (regex \<circ> info) (field_named User ''email'') = Some (Some email_regex)"
    by (simp add: field_named_def User_def fld_def)
  ultimately show ?thesis using r by blast
qed

text \<open>
  The string \<open>no-at-sign\<close> does not match the email pattern, and a payload with it as
  \<open>starter_email\<close> validates.
\<close>

theorem starter_email_not_format_validated_witness:
  "length ''no-at-sign'' \<le> 255 \<and> \<not> matches email_regex ''no-at-sign'' \<and>
   \<not> re_match email_regex ''no-at-sign'' \<and>
   field_result Pydantic_1 NewStarterRequestCreate 0 (starter_payload ''no-at-sign'')
     ''starter_email'' = Some (Inr (VStr ''no-at-sign'')) \<and>
   (\<exists>r. model_validate Pydantic_1 NewStarterRequestCreate 0 (starter_payload ''no-at-sign'') =
          Inr r \<and> r ''starter_email'' = Some (VStr ''no-at-sign''))"
proof -
  have "\<not> matches email_regex ''no-at-sign''"
    using email_needs_at [of "''no-at-sign''"] by auto
  moreover have "\<not> re_match email_regex ''no-at-sign''"
    using re_match_needs_at [of "''no-at-sign''"] by auto
  moreover have "\<exists>r. model_validate Pydantic_1 NewStarterRequestCreate 0
        (starter_payload ''no-at-sign'') = Inr r \<and> r ''starter_email'' = Some (VStr ''no-at-sign'')"
    by (simp add: NewStarterRequestCreate_def starter_payload_def validate_simps)
  moreover have "field_result Pydantic_1 NewStarterRequestCreate 0
      (starter_payload ''no-at-sign'') ''starter_email'' = Some (Inr (VStr ''no-at-sign''))"
    using starter_email_not_format_validated [of NewStarterRequestCreate "''no-at-sign''"
        "starter_payload ''no-at-sign''" Pydantic_1 0]
    by (simp add: starter_payload_def)
  ultimately show ?thesis by simp
qed

section \<open>Maximum lengths\<close>

lemma max_length_on_strings:
  assumes "m \<in> set all_models" and "f \<in> set (model_fields m)" and "max_length (info f) = Some L"
  shows "annotation f = T_str \<or> annotation f = T_Optional T_str"
proof -
  have "list_all (\<lambda>m. list_all (\<lambda>f. max_length (info f) = None \<or> annotation f = T_str \<or>
      annotation f = T_Optional T_str) (model_fields m)) all_models"
    unfolding models_unfold by (simp add: model_defs fld_def Field_def)
  from checked_field [OF this assms(1,2)] assms(3) show ?thesis by simp
qed

lemma regex_on_user_email:
  assumes "m \<in> set all_models" and "f \<in> set (model_fields m)" and "regex (info f) = Some r"
  shows "cls_name m = ''User'' \<and> name f = ''email'' \<and> r = email_regex"
proof -
  have "list_all (\<lambda>m. list_all (\<lambda>f. regex (info f) = None \<or>
      (cls_name m = ''User'' \<and> name f = ''email'' \<and> regex (info f) = Some email_regex))
      (model_fields m)) all_models"
    unfolding models_unfold by (simp add: model_defs fld_def Field_def)
  from checked_field [OF this assms(1,2)] assms(3) show ?thesis by simp
qed

lemma str_field_check:
  "annotation f = T_str \<or> annotation f = T_Optional T_str \<Longrightarrow>
     validate_field lib now f (Some (VStr s)) = check_str lib (info f) s"
  by (auto simp: validate_field_def)

lemma field_result_of_field:
  "m \<in> set all_models \<Longrightarrow> f \<in> set (model_fields m) \<Longrightarrow>
     field_result lib m now p (name f) = Some (validate_field lib now f (p (name f)))"
  using find_distinct_name [OF all_models_distinct, of m f]
  by (simp add: field_result_def field_named_def)

lemma rejected_field:
  assumes "m \<in> set all_models" and "f \<in> set (model_fields m)"
    and "validate_field lib now f (p (name f)) = Inl e"
  shows "\<exists>errs. model_validate lib m now p = Inl (ValidationError errs) \<and> (name f, e) \<in> set errs"
proof -
  have fr: "field_result lib m now p (name f) = Some (Inl e)"
    using field_result_of_field [OF assms(1,2)] assms(3) by simp
  have "model_validate lib m now p \<noteq> Inr r" for r
    using valid_field_result [of lib m now p r "name f"] fr by (cases "r (name f)") auto
  then obtain errs where errs: "model_validate lib m now p = Inl (ValidationError errs)"
    by (cases "model_validate lib m now p") (auto simp: model_validate_Inl)
  then show ?thesis
    using errors_field_result [OF all_models_distinct [OF assms(1)] errs] fr by blast
qed

lemma accepted_field:
  assumes "m \<in> set all_models" and "f \<in> set (model_fields m)"
    and "validate_field lib now f (p (name f)) = Inr v"
  shows "field_result lib m now p (name f) = Some (Inr v) \<and>
    (\<forall>errs e. model_validate lib m now p = Inl (ValidationError errs) \<longrightarrow> (name f, e) \<notin> set errs) \<and>
    (\<forall>r. model_validate lib m now p = Inr r \<longrightarrow> r (name f) = Some v)"
proof -
  have fr: "field_result lib m now p (name f) = Some (Inr v)"
    using field_result_of_field [OF assms(1,2)] assms(3) by simp
  have "(name f, e) \<notin> set errs"
    if "model_validate lib m now p = Inl (ValidationError errs)" for errs e
    using errors_field_result [OF all_models_distinct [OF assms(1)] that, of "name f" e] fr
    by simp
  moreover have "r (name f) = Some v" if "model_validate lib m now p = Inr r" for r
    using valid_field_result [OF that, of "name f"] fr by (cases "r (name f)") auto
  ultimately show ?thesis using fr by blast
qed

text \<open>
  Claim C6. Let a field of any class of the module declare the maximum length \<open>L\<close>, and let a
  payload give it a string. If the string has length \<open>L + 1\<close>, validation fails with a
  validation error that reports the length for that field. If the string has length \<open>L\<close>, it
  passes the length check: no validation error reports the length for the field. It is then
  accepted unchanged, with no validation error about the field at all, unless the field
  declares a pattern, the library checks patterns and the string does not match; the only
  field with a pattern is \<open>User.email\<close>. In particular, where the library does not check
  patterns, every string of length \<open>L\<close> is accepted for every field.
\<close>

theorem max_length_boundary:
  assumes "m \<in> set all_models" and "f \<in> set (model_fields m)"
    and "max_length (info f) = Some L" and "p (name f) = Some (VStr s)"
  shows "(length s = L + 1 \<longrightarrow>
      (\<exists>errs. model_validate lib m now p = Inl (ValidationError errs) \<and>
         (name f, Too_long) \<in> set errs)) \<and>
    (length s = L \<longrightarrow>
      field_result lib m now p (name f) \<noteq> Some (Inl Too_long) \<and>
      (\<forall>errs. model_validate lib m now p = Inl (ValidationError errs) \<longrightarrow>
         (name f, Too_long) \<notin> set errs)) \<and>
    (length s = L \<and> (case regex (info f) of None \<Rightarrow> True | Some r \<Rightarrow> pattern_ok lib r s) \<longrightarrow>
      field_result lib m now p (name f) = Some (Inr (VStr s)) \<and>
      (\<forall>errs e. model_validate lib m now p = Inl (ValidationError errs) \<longrightarrow>
         (name f, e) \<notin> set errs)) \<and>
    (length s = L \<and> lib = Pydantic_2 \<longrightarrow>
      field_result lib m now p (name f) = Some (Inr (VStr s)) \<and>
      (\<forall>errs e. model_validate lib m now p = Inl (ValidationError errs) \<longrightarrow>
         (name f, e) \<notin> set errs)) \<and>
    (regex (info f) \<noteq> None \<longrightarrow> cls_name m = ''User'' \<and> name f = ''email'')"
proof -
  have c: "validate_field lib now f (p (name f)) = check_str lib (info f) s"
    using str_field_check [OF max_length_on_strings [OF assms(1,2,3)]] assms(4) by simp
  have fr: "field_result lib m now p (name f) = Some (check_str lib (info f) s)"
    using field_result_of_field [OF assms(1,2)] c by simp
  have long: "\<exists>errs. model_validate lib m now p = Inl (ValidationError errs) \<and>
      (name f, Too_long) \<in> set errs" if "length s = L + 1"
    using rejected_field [OF assms(1,2), of lib now p Too_long] c that assms(3)
    by (simp add: check_str_def)
  have nl: "check_str lib (info f) s \<noteq> Inl Too_long" if "length s = L"
    using that assms(3) by (simp add: check_str_def)
  have fit: "field_result lib m now p (name f) \<noteq> Some (Inl Too_long) \<and>
      (\<forall>errs. model_validate lib m now p = Inl (ValidationError errs) \<longrightarrow>
         (name f, Too_long) \<notin> set errs)" if "length s = L"
    using errors_field_result [OF all_models_distinct [OF assms(1)], of lib now p _ "name f" Too_long]
      fr nl [OF that] by auto
  have ok: "field_result lib m now p (name f) = Some (Inr (VStr s)) \<and>
      (\<forall>errs e. model_validate lib m now p = Inl (ValidationError errs) \<longrightarrow> (name f, e) \<notin> set errs)"
    if "length s = L" and "case regex (info f) of None \<Rightarrow> True | Some r \<Rightarrow> pattern_ok lib r s"
    using accepted_field [OF assms(1,2), of lib now p "VStr s"] c that assms(3)
    by (simp add: check_str_def split: option.splits)
  have ign: "field_result lib m now p (name f) = Some (Inr (VStr s)) \<and>
      (\<forall>errs e. model_validate lib m now p = Inl (ValidationError errs) \<longrightarrow> (name f, e) \<notin> set errs)"
    if "length s = L" and "lib = Pydantic_2"
  proof -
    have "case regex (info f) of None \<Rightarrow> True | Some r \<Rightarrow> pattern_ok lib r s"
      using that(2) by (simp add: pattern_ok_def split: option.splits)
    with ok that(1) show ?thesis by blast
  qed
  have "cls_name m = ''User'' \<and> name f = ''email''" if "regex (info f) \<noteq> None"
    using regex_on_user_email [OF assms(1,2)] that by auto
  with long fit ok ign show ?thesis by blast
qed

lemma code_field:
  "fld ''code'' T_str (Field\<lparr>max_length := Some 20\<rparr>) \<in> set (model_fields ProjectCreate)"
  by (simp add: ProjectCreate_def)

lemma user_email_field:
  "fld ''email'' T_str (Field\<lparr>unique := True, max_length := Some 255, regex := Some email_regex\<rparr>)
     \<in> set (model_fields User)"
  by (simp add: User_def)

text \<open>
  \<open>ProjectCreate.code\<close> declares the maximum length 20: a code of 20 characters is accepted,
  one of 21 characters is refused for its length. \<open>User.email\<close> declares the maximum length
  255: where the library does not check patterns, the string of 255 letters \<open>a\<close> is accepted.
\<close>

theorem max_length_boundary_witness:
  "ProjectCreate \<in> set all_models \<and>
   length ''PRJ-0123456789-ABCDE'' = 20 \<and>
   field_result Pydantic_1 ProjectCreate 0 (project_payload ''PRJ-0123456789-ABCDE'') ''code'' =
     Some (Inr (VStr ''PRJ-0123456789-ABCDE'')) \<and>
   length ''PRJ-0123456789-ABCDEF'' = 20 + 1 \<and>
   (\<exists>errs. model_validate Pydantic_1 ProjectCreate 0
       (project_payload ''PRJ-0123456789-ABCDEF'') = Inl (ValidationError errs) \<and>
       (''code'', Too_long) \<in> set errs) \<and>
   User \<in> set all_models \<and> length (replicate 255 CHR ''a'') = 255 \<and>
   field_result Pydantic_2 User 0 (user_payload (replicate 255 CHR ''a'')) ''email'' =
     Some (Inr (VStr (replicate 255 CHR ''a'')))"
proof -
  let ?c = "fld ''code'' T_str (Field\<lparr>max_length := Some 20\<rparr>)"
  let ?e = "fld ''email'' T_str
    (Field\<lparr>unique := True, max_length := Some 255, regex := Some email_regex\<rparr>)"
  have m: "ProjectCreate \<in> set all_models" "User \<in> set all_models"
    by (simp_all add: all_models_def schema_models_def table_models_def)
  have i: "max_length (info ?c) = Some 20" "max_length (info ?e) = Some 255"
    by (simp_all add: fld_def)
  have n: "name ?c = ''code''" "name ?e = ''email''"
    by (simp_all add: fld_def)
  have r: "regex (info ?c) = None"
    by (simp add: fld_def Field_def)
  have "field_result Pydantic_1 ProjectCreate 0 (project_payload ''PRJ-0123456789-ABCDE'')
      ''code'' = Some (Inr (VStr ''PRJ-0123456789-ABCDE''))"
    using max_length_boundary [where m = ProjectCreate and f = ?c and L = 20
        and p = "project_payload ''PRJ-0123456789-ABCDE''" and s = "''PRJ-0123456789-ABCDE''"
        and lib = Pydantic_1 and now = 0, OF m(1) code_field i(1)]
    unfolding n r by (simp add: project_payload_def)
  moreover have "\<exists>errs. model_validate Pydantic_1 ProjectCreate 0
       (project_payload ''PRJ-0123456789-ABCDEF'') = Inl (ValidationError errs) \<and>
       (''code'', Too_long) \<in> set errs"
    using max_length_boundary [where m = ProjectCreate and f = ?c and L = 20
        and p = "project_payload ''PRJ-0123456789-ABCDEF''" and s = "''PRJ-0123456789-ABCDEF''"
        and lib = Pydantic_1 and now = 0, OF m(1) code_field i(1)]
    unfolding n r by (simp add: project_payload_def)
  moreover have "field_result Pydantic_2 User 0 (user_payload (replicate 255 CHR ''a''))
      ''email'' = Some (Inr (VStr (replicate 255 CHR ''a'')))"
    using max_length_boundary [where m = User and f = ?e and L = 255
        and p = "user_payload (replicate 255 CHR ''a'')" and s = "replicate 255 CHR ''a''"
        and lib = Pydantic_2 and now = 0, OF m(2) user_email_field i(2)]
    unfolding n by (simp add: user_payload_def)
  ultimately show ?thesis using m by simp
qed

text \<open>
  Where the library checks patterns, the same string is refused for \<open>User.email\<close>, and the
  reason is the pattern, not the length.
\<close>

lemma long_a_pattern_mismatch:
  "model_validate Pydantic_1 User 0 (user_payload (replicate 255 CHR ''a'')) =
     Inl (ValidationError [(''email'', Pattern_mismatch)])"
proof -
  have "\<not> pattern_ok Pydantic_1 email_regex (replicate 255 CHR ''a'')"
    using no_at_pattern_ok [of "replicate 255 CHR ''a''" Pydantic_1] by simp
  then show ?thesis
    by (simp add: User_def user_payload_def validate_simps)
qed

section \<open>Enumerated fields\<close>

lemma enum_lookup_Some:
  "enum_lookup c s = Some v \<Longrightarrow> v \<in> set (enum_members c) \<and> enum_value v = s"
  unfolding enum_lookup_def using find_Some_set [of "\<lambda>m. enum_value m = s"] by auto

lemma enum_lookup_None:
  "enum_lookup c s = None \<longleftrightarrow> s \<notin> enum_value ` set (enum_members c)"
  unfolding enum_lookup_def find_None_iff by auto

lemma enum_field_names:
  assumes "m \<in> set all_models" and "f \<in> set (model_fields m)"
  shows "(\<exists>c. annotation f = T_Enum c) \<longleftrightarrow>
       name f \<in> {''role'', ''category'', ''status'', ''content_type''}"
proof -
  have "list_all (\<lambda>m. list_all (\<lambda>f. is_enum (annotation f) =
      (name f \<in> set [''role'', ''category'', ''status'', ''content_type''])) (model_fields m)) all_models"
    unfolding models_unfold by (simp add: model_defs fld_def Field_def is_enum_def)
  from checked_field [OF this assms]
  have "is_enum (annotation f) = (name f \<in> set [''role'', ''category'', ''status'', ''content_type''])" .
  then show ?thesis by (cases "annotation f") (simp_all add: is_enum_def)
qed

text \<open>
  Claim C5. The enumerated fields of the module are the fields named \<open>role\<close>, \<open>category\<close>,
  \<open>status\<close> and \<open>content_type\<close>. For each of them, in every class, validation accepts a
  string exactly when it is the value of a member of the field's enumeration class: then the
  field is accepted and the validated row holds the member with that value; otherwise
  validation fails with a validation error that reports an invalid enumeration value for the
  field. The value sets are the closed lists of lines 9-40. In particular a
  \<open>ProjectMembership\<close> with role \<open>not_a_role\<close> is refused for that reason, and with role
  \<open>viewer\<close> it is accepted and its role is the member \<open>VIEWER\<close>, whose value reads
  \<open>viewer\<close>.
\<close>

theorem enum_fields_closed:
  assumes "m \<in> set all_models" and "f \<in> set (model_fields m)"
    and "annotation f = T_Enum c" and "p (name f) = Some (VStr s)"
  shows "(s \<in> enum_value ` set (enum_members c) \<longrightarrow>
      (\<exists>v. v \<in> set (enum_members c) \<and> enum_value v = s \<and>
         field_result lib m now p (name f) = Some (Inr (VEnum v)) \<and>
         (\<forall>r. model_validate lib m now p = Inr r \<longrightarrow> r (name f) = Some (VEnum v)) \<and>
         (\<forall>errs e. model_validate lib m now p = Inl (ValidationError errs) \<longrightarrow>
            (name f, e) \<notin> set errs))) \<and>
    (s \<notin> enum_value ` set (enum_members c) \<longrightarrow>
      (\<exists>errs. model_validate lib m now p = Inl (ValidationError errs) \<and>
         (name f, Invalid_enum_value) \<in> set errs)) \<and>
    name f \<in> {''role'', ''category'', ''status'', ''content_type''} \<and>
    map enum_value (enum_members UserRole_cls) =
      [''admin'', ''manager'', ''viewer'', ''external'', ''team_member''] \<and>
    map enum_value (enum_members ToolCategory_cls) = [''app'', ''platform'', ''control_board''] \<and>
    map enum_value (enum_members OnboardingStatus_cls) =
      [''pending'', ''in_progress'', ''completed''] \<and>
    map enum_value (enum_members InductionStatus_cls) =
      [''not_started'', ''in_progress'', ''completed''] \<and>
    map enum_value (enum_members ContentType_cls) =
      [''text'', ''image'', ''video'', ''file'', ''link''] \<and>
    model_validate lib ProjectMembership now (membership_payload ''not_a_role'') =
      Inl (ValidationError [(''role'', Invalid_enum_value)]) \<and>
    (\<exists>r. model_validate lib ProjectMembership now (membership_payload ''viewer'') = Inr r \<and>
       r ''role'' = Some (VEnum (Role VIEWER)) \<and> enum_value (Role VIEWER) = ''viewer'')"
proof -
  have v: "validate_field lib now f (p (name f)) =
      (case enum_lookup c s of None \<Rightarrow> Inl Invalid_enum_value | Some v \<Rightarrow> Inr (VEnum v))"
    using assms(3,4) by (simp add: validate_field_def)
  have good: "\<exists>v. v \<in> set (enum_members c) \<and> enum_value v = s \<and>
         field_result lib m now p (name f) = Some (Inr (VEnum v)) \<and>
         (\<forall>r. model_validate lib m now p = Inr r \<longrightarrow> r (name f) = Some (VEnum v)) \<and>
         (\<forall>errs e. model_validate lib m now p = Inl (ValidationError errs) \<longrightarrow>
            (name f, e) \<notin> set errs)"
    if "s \<in> enum_value ` set (enum_members c)"
  proof -
    from that obtain w where w: "enum_lookup c s = Some w"
      using enum_lookup_None [of c s] by (cases "enum_lookup c s") auto
    then have "validate_field lib now f (p (name f)) = Inr (VEnum w)"
      using v by simp
    from accepted_field [of m f lib now p "VEnum w", OF assms(1,2) this] enum_lookup_Some [OF w]
    show ?thesis by blast
  qed
  have bad: "\<exists>errs. model_validate lib m now p = Inl (ValidationError errs) \<and>
         (name f, Invalid_enum_value) \<in> set errs"
    if "s \<notin> enum_value ` set (enum_members c)"
  proof -
    from that have "validate_field lib now f (p (name f)) = Inl Invalid_enum_value"
      using v enum_lookup_None [of c s] by simp
    from rejected_field [of m f lib now p Invalid_enum_value, OF assms(1,2) this] show ?thesis .
  qed
  have n: "name f \<in> {''role'', ''category'', ''status'', ''content_type''}"
    using enum_field_names [OF assms(1,2)] assms(3) by blast
  have e1: "model_validate lib ProjectMembership now (membership_payload ''not_a_role'') =
      Inl (ValidationError [(''role'', Invalid_enum_value)])"
    by (simp add: ProjectMembership_def membership_payload_def validate_simps enum_lookup_def)
  have e2: "\<exists>r. model_validate lib ProjectMembership now (membership_payload ''viewer'') = Inr r \<and>
       r ''role'' = Some (VEnum (Role VIEWER)) \<and> enum_value (Role VIEWER) = ''viewer''"
    by (simp add: ProjectMembership_def membership_payload_def validate_simps enum_lookup_def)
  have vals: "map enum_value (enum_members UserRole_cls) =
      [''admin'', ''manager'', ''viewer'', ''external'', ''team_member'']"
    "map enum_value (enum_members ToolCategory_cls) = [''app'', ''platform'', ''control_board'']"
    "map enum_value (enum_members OnboardingStatus_cls) =
      [''pending'', ''in_progress'', ''completed'']"
    "map enum_value (enum_members InductionStatus_cls) =
      [''not_started'', ''in_progress'', ''completed'']"
    "map enum_value (enum_members ContentType_cls) =
      [''text'', ''image'', ''video'', ''file'', ''link'']"
    by simp_all
  show ?thesis
    using good bad n e1 e2 vals by blast
qed

lemma create_role_field:
  "fld ''role'' (T_Enum UserRole_cls) (Field\<lparr>dflt := Some (VEnum (Role TEAM_MEMBER))\<rparr>)
     \<in> set (model_fields ProjectMembershipCreate)"
  by (simp add: ProjectMembershipCreate_def)

text \<open>The same on the create shape \<open>ProjectMembershipCreate\<close> (line 310).\<close>

theorem enum_fields_closed_witness:
  "ProjectMembershipCreate \<in> set all_models \<and>
   ''not_a_role'' \<notin> enum_value ` set (enum_members UserRole_cls) \<and>
   (\<exists>errs. model_validate Pydantic_1 ProjectMembershipCreate 0 (membership_payload ''not_a_role'') =
      Inl (ValidationError errs) \<and> (''role'', Invalid_enum_value) \<in> set errs) \<and>
   ''viewer'' \<in> enum_value ` set (enum_members UserRole_cls) \<and>
   (\<exists>v. enum_value v = ''viewer'' \<and>
      field_result Pydantic_1 ProjectMembershipCreate 0 (membership_payload ''viewer'') ''role'' =
        Some (Inr (VEnum v)))"
proof -
  let ?f = "fld ''role'' (T_Enum UserRole_cls) (Field\<lparr>dflt := Some (VEnum (Role TEAM_MEMBER))\<rparr>)"
  have m: "ProjectMembershipCreate \<in> set all_models"
    by (simp add: all_models_def schema_models_def)
  have a: "annotation ?f = T_Enum UserRole_cls" and n: "name ?f = ''role''"
    by (simp_all add: fld_def)
  have bad: "''not_a_role'' \<notin> enum_value ` set (enum_members UserRole_cls)"
    and good: "''viewer'' \<in> enum_value ` set (enum_members UserRole_cls)"
    by simp_all
  have "\<exists>errs. model_validate Pydantic_1 ProjectMembershipCreate 0 (membership_payload ''not_a_role'') =
      Inl (ValidationError errs) \<and> (''role'', Invalid_enum_value) \<in> set errs"
    using enum_fields_closed [where p = "membership_payload ''not_a_role''"
        and s = "''not_a_role''" and lib = Pydantic_1 and now = 0, OF m create_role_field a] bad
    unfolding n by (simp add: membership_payload_def)
  moreover have "\<exists>v. enum_value v = ''viewer'' \<and>
      field_result Pydantic_1 ProjectMembershipCreate 0 (membership_payload ''viewer'') ''role'' =
        Some (Inr (VEnum v))"
    using enum_fields_closed [where p = "membership_payload ''viewer''"
        and s = "''viewer''" and lib = Pydantic_1 and now = 0, OF m create_role_field a] good
    unfolding n by (auto simp: membership_payload_def)
  ultimately show ?thesis using m bad good by blast
qed

section \<open>The email format on creation\<close>

text \<open>
  Where the library checks patterns, the email of a \<open>User\<close> payload is checked: a string of
  at most 255 characters is accepted exactly when the pattern matches it, and is refused for
  the format otherwise. Where it does not, every such string is accepted.
\<close>

lemma user_email_format_checked:
  assumes "p ''email'' = Some (VStr s)" and "length s \<le> 255"
  shows "field_result lib User now p ''email'' =
     Some (if pattern_ok lib email_regex s then Inr (VStr s) else Inl Pattern_mismatch)"
  using assms
  by (simp add: field_result_def field_named_def User_def validate_field_def fld_def
      check_str_def)

text \<open>
  Claim C1 says that the email format is checked on \<open>UserCreate\<close> as it is on \<open>User\<close>. The
  pattern is declared on \<open>User.email\<close> (line 48) only; \<open>UserCreate.email\<close> (line 279)
  declares the maximum length alone. The string \<open>not-an-email\<close> does not match the pattern;
  the payload that carries it is accepted by \<open>UserCreate\<close>, whatever the library does with
  patterns, and is refused by \<open>User\<close> where the library checks them.
\<close>

theorem UserCreate_accepts_malformed_email:
  "\<not> matches email_regex ''not-an-email'' \<and> \<not> re_match email_regex ''not-an-email'' \<and>
   (\<forall>lib. \<exists>r. model_validate lib UserCreate 0 (user_payload ''not-an-email'') = Inr r \<and>
      r ''email'' = Some (VStr ''not-an-email'')) \<and>
   map_option (regex \<circ> info) (field_named UserCreate ''email'') = Some None \<and>
   map_option (regex \<circ> info) (field_named User ''email'') = Some (Some email_regex) \<and>
   model_validate Pydantic_1 User 0 (user_payload ''not-an-email'') =
     Inl (ValidationError [(''email'', Pattern_mismatch)])"
proof -
  have n: "\<not> matches email_regex ''not-an-email''"
    using email_needs_at [of "''not-an-email''"] by auto
  have n': "\<not> re_match email_regex ''not-an-email''"
    using re_match_needs_at [of "''not-an-email''"] by auto
  have "\<exists>r. model_validate lib UserCreate 0 (user_payload ''not-an-email'') = Inr r \<and>
      r ''email'' = Some (VStr ''not-an-email'')" for lib
    by (simp add: UserCreate_def user_payload_def validate_simps)
  moreover have "model_validate Pydantic_1 User 0 (user_payload ''not-an-email'') =
     Inl (ValidationError [(''email'', Pattern_mismatch)])"
    using n' by (simp add: User_def user_payload_def validate_simps pattern_ok_def)
  moreover have "map_option (regex \<circ> info) (field_named UserCreate ''email'') = Some None"
    by (simp add: field_named_def UserCreate_def fld_def Field_def)
  moreover have "map_option (regex \<circ> info) (field_named User ''email'') = Some (Some email_regex)"
    by (simp add: field_named_def User_def fld_def)
  ultimately show ?thesis using n n' by blast
qed

section \<open>Declared defaults\<close>

lemma declared_defaults_checked:
  "list_all (\<lambda>m. list_all (declared_default m) (model_fields m)) (table_models @ create_models)"
  unfolding table_models_def create_models_def
  by (simp add: model_defs fld_def Field_def declared_default_def)

lemma create_models_in_all: "set (table_models @ create_models) \<subseteq> set all_models"
  by (auto simp: all_models_def schema_models_def create_models_def)

lemma listed_defaults_declared:
  "list_all (\<lambda>(m, ds). list_all (\<lambda>(n, d).
      list_ex (\<lambda>f. name f = n \<and> dflt (info f) = Some d) (model_fields m)) ds) listed_defaults"
  unfolding listed_defaults_def
  by (simp add: model_defs fld_def Field_def)

lemma listed_defaults_classes:
  "list_all (\<lambda>(m, ds). m \<in> set (table_models @ create_models)) listed_defaults"
  by (simp add: listed_defaults_def table_models_def create_models_def)

lemma sample_email_matches: "matches email_regex ''a@example.com''"
  unfolding email_shape_iff
  by (simp add: email_shape_def in_class_def local_class_def domain_class_def tld_class_def)

lemma sample_payload_populates:
  "list_all (\<lambda>m. populates lib now (sample_payload m) m) all_models"
proof -
  have "pattern_ok lib email_regex ''a@example.com''"
    by (rule matches_pattern_ok) (rule sample_email_matches)
  then show ?thesis
    unfolding models_unfold
    by (simp add: populates_def sample_payload_def model_defs validate_field_def check_str_def
        fld_def Field_def enum_lookup_def del: matches.simps)
qed

lemma omitted_field_default:
  assumes "m \<in> set all_models" and "model_validate lib m now p = Inr r"
    and "f \<in> set (model_fields m)" and "p (name f) = None" and "dflt (info f) = Some d"
  shows "r (name f) = Some d"
proof -
  have "validate_field lib now f (p (name f)) = Inr d"
    using assms(4,5) by (simp add: validate_field_def)
  from accepted_field [of m f lib now p d, OF assms(1,3) this] assms(2) show ?thesis by blast
qed

lemma populated_validates:
  assumes "populates lib now p m"
  shows "\<exists>r. model_validate lib m now p = Inr r"
proof -
  have "\<exists>v. validate_field lib now f (p (name f)) = Inr v" if "f \<in> set (model_fields m)" for f
  proof (cases "dflt (info f)")
    case None
    with assms that show ?thesis
      by (cases "validate_field lib now f (p (name f))")
        (auto simp: populates_def list_all_iff)
  next
    case (Some d)
    with assms that have "p (name f) = None"
      by (auto simp: populates_def list_all_iff)
    with Some show ?thesis by (simp add: validate_field_def)
  qed
  then have "(n, e) \<notin> set (fst (validate_fields lib now (model_fields m) p))" for n e
    unfolding validate_fields_errs by fastforce
  then have "fst (validate_fields lib now (model_fields m) p) = []"
    by (cases "fst (validate_fields lib now (model_fields m) p)") force+
  then show ?thesis by (simp add: model_validate_Inr)
qed

lemma populated_omits:
  "populates lib now p m \<Longrightarrow> f \<in> set (model_fields m) \<Longrightarrow> dflt (info f) = Some d \<Longrightarrow>
     p (name f) = None"
  by (auto simp: populates_def list_all_iff)

text \<open>
  Claim C7. A payload populates a class when it omits every field with a declared default and
  gives every other field a value that the field accepts. In every class of the module such
  a payload validates, so a row is constructed, and in the row each field with a declared
  default holds that default. The defaults that the claim lists are declared in the source:
  \<open>listed_defaults\<close> gives them class by class for the table classes, each entry is a
  declaration of the class, and in every table class and create shape \<open>is_active\<close> is true,
  \<open>role\<close> is \<open>team_member\<close>, the \<open>status\<close> of a \<open>NewStarterRequest\<close> is \<open>pending\<close> and of an
  \<open>InductionProgress\<close> is \<open>not_started\<close>, the JSON maps (\<open>settings\<close>, \<open>embed_config\<close>,
  \<open>configuration\<close>, \<open>content_metadata\<close>, \<open>additional_info\<close>) are empty maps and the JSON
  sequences (\<open>skills\<close>, \<open>certifications\<close>, \<open>required_roles\<close>) are empty sequences. Every
  class has a populating payload, \<open>sample_payload\<close>.
\<close>

theorem declared_defaults_applied:
  assumes "m \<in> set all_models" and "populates lib now p m"
  shows "(\<exists>r. model_validate lib m now p = Inr r \<and>
       (\<forall>f \<in> set (model_fields m). \<forall>d. dflt (info f) = Some d \<longrightarrow> r (name f) = Some d) \<and>
       (\<forall>(m', ds) \<in> set listed_defaults. m' = m \<longrightarrow> (\<forall>(n, d) \<in> set ds. r n = Some d))) \<and>
    (\<forall>(m', ds) \<in> set listed_defaults. m' \<in> set (table_models @ create_models) \<and>
       (\<forall>(n, d) \<in> set ds. \<exists>f \<in> set (model_fields m'). name f = n \<and> dflt (info f) = Some d)) \<and>
    (\<forall>m' \<in> set (table_models @ create_models). \<forall>f \<in> set (model_fields m').
       declared_default m' f) \<and>
    (\<forall>m' \<in> set all_models. populates lib now (sample_payload m') m')"
proof -
  obtain r where r: "model_validate lib m now p = Inr r"
    using populated_validates [OF assms(2)] by blast
  have d: "r (name f) = Some d" if "f \<in> set (model_fields m)" "dflt (info f) = Some d" for f d
    using omitted_field_default [OF assms(1) r that(1) populated_omits [OF assms(2) that] that(2)] .
  have l: "\<exists>f \<in> set (model_fields m'). name f = n \<and> dflt (info f) = Some d"
    if "(m', ds) \<in> set listed_defaults" "(n, d) \<in> set ds" for m' ds n d
    using listed_defaults_declared that by (fastforce simp: list_all_iff list_ex_iff)
  have c: "m' \<in> set (table_models @ create_models)" if "(m', ds) \<in> set listed_defaults" for m' ds
    using listed_defaults_classes that by (fastforce simp: list_all_iff simp del: set_append)
  have "r n = Some d" if "(m, ds) \<in> set listed_defaults" "(n, d) \<in> set ds" for ds n d
    using l [OF that] d by blast
  then have a: "\<forall>(m', ds) \<in> set listed_defaults. m' = m \<longrightarrow> (\<forall>(n, d) \<in> set ds. r n = Some d)"
    by blast
  have b: "\<forall>(m', ds) \<in> set listed_defaults. m' \<in> set (table_models @ create_models) \<and>
       (\<forall>(n, d) \<in> set ds. \<exists>f \<in> set (model_fields m'). name f = n \<and> dflt (info f) = Some d)"
    using l c by blast
  have e: "\<forall>m' \<in> set (table_models @ create_models). \<forall>f \<in> set (model_fields m').
       declared_default m' f"
    using declared_defaults_checked by (simp add: list_all_iff del: set_append)
  have s: "\<forall>m' \<in> set all_models. populates lib now (sample_payload m') m'"
    using sample_payload_populates by (simp add: list_all_iff)
  from r d a b e s show ?thesis by blast
qed

text \<open>
  A \<open>Dashboard\<close> payload with the three required fields only validates; the row is active,
  and its configuration and required roles are empty.
\<close>

theorem declared_defaults_applied_witness:
  "Dashboard \<in> set all_models \<and> populates Pydantic_2 0 dashboard_payload Dashboard \<and>
   (\<exists>r. model_validate Pydantic_2 Dashboard 0 dashboard_payload = Inr r \<and>
      r ''is_active'' = Some (VBool True) \<and> r ''configuration'' = Some (VDict []) \<and>
      r ''required_roles'' = Some (VList []))"
proof -
  have m: "Dashboard \<in> set all_models"
    by (simp add: all_models_def table_models_def)
  have p: "populates Pydantic_2 0 dashboard_payload Dashboard"
    by (simp add: populates_def dashboard_payload_def Dashboard_def validate_field_def
        check_str_def fld_def Field_def)
  have l: "(Dashboard, [(''is_active'', VBool True), (''configuration'', VDict []),
         (''required_roles'', VList [])]) \<in> set listed_defaults"
    by (simp add: listed_defaults_def)
  from declared_defaults_applied [OF m p] obtain r
    where r: "model_validate Pydantic_2 Dashboard 0 dashboard_payload = Inr r"
      and t: "\<forall>(m', ds) \<in> set listed_defaults. m' = Dashboard \<longrightarrow>
        (\<forall>(n, d) \<in> set ds. r n = Some d)"
    by blast
  from t l have "r ''is_active'' = Some (VBool True)" "r ''configuration'' = Some (VDict [])"
    "r ''required_roles'' = Some (VList [])"
    by fastforce+
  with m p r show ?thesis by blast
qed

section \<open>The completion percentage\<close>

text \<open>
  \<open>InductionProgress.completion_percentage\<close> (line 253) declares \<open>max_digits=5\<close> and
  \<open>decimal_places=2\<close>. The lemmas below show what the checks on the digits mean for the value
  of a number that the arithmetic context represents exactly: under either library it is
  accepted exactly when it has at most two decimal places and its magnitude is below 1000.
\<close>

lemma num_digits_pos: "0 < num_digits n"
  by (subst num_digits.simps) simp

lemma num_digits_le: "num_digits n \<le> Suc k \<longleftrightarrow> n < 10 ^ Suc k"
proof (induction k arbitrary: n)
  case 0
  show ?case using num_digits_pos [of "n div 10"] by (subst num_digits.simps) auto
next
  case (Suc k)
  show ?case
  proof (cases "n < 10")
    case True
    have "(10::nat) ^ 1 \<le> 10 ^ Suc (Suc k)" by (rule power_increasing) simp_all
    then have "(10::nat) \<le> 10 ^ Suc (Suc k)" unfolding power_one_right .
    with True have "n < 10 ^ Suc (Suc k)" by (rule less_le_trans)
    with True show ?thesis by (subst num_digits.simps) simp
  next
    case False
    have "num_digits n \<le> Suc (Suc k) \<longleftrightarrow> num_digits (n div 10) \<le> Suc k"
      using False by (subst num_digits.simps) simp
    also have "\<dots> \<longleftrightarrow> n div 10 < 10 ^ Suc k" by (rule Suc.IH)
    also have "\<dots> \<longleftrightarrow> n < 10 ^ Suc (Suc k)"
      by (simp add: div_less_iff_less_mult mult.commute)
    finally show ?thesis .
  qed
qed

lemma strip_zeros_places:
  "c \<noteq> 0 \<Longrightarrow> strip_zeros c e = (c', e') \<Longrightarrow>
     at_most_places k (Decimal s c e) = at_most_places k (Decimal s c' e')"
proof (induction c e rule: strip_zeros.induct)
  case (1 c e)
  show ?case
  proof (cases "c mod 10 = 0")
    case False
    with "1.prems" show ?thesis by (simp add: strip_zeros.simps [of c e])
  next
    case True
    then obtain c1 where c: "c = 10 * c1" by (auto simp: mod_eq_0_iff_dvd)
    with "1.prems" have c1: "c1 \<noteq> 0" by simp
    have s: "strip_zeros (c div 10) (e + 1) = (c', e')"
      using "1.prems" True by (simp add: strip_zeros.simps [of c e])
    have "at_most_places k (Decimal s c e) = at_most_places k (Decimal s (c div 10) (e + 1))"
    proof (cases "- int k \<le> e")
      case True
      then show ?thesis by (simp add: at_most_places_def)
    next
      case False
      then obtain n where n: "nat (- e - int k) = Suc n"
        by (cases "nat (- e - int k)") auto
      then have n': "nat (- (e + 1) - int k) = n" by linarith
      show ?thesis
      proof (cases "- int k \<le> e + 1")
        case True
        with False have "n = 0" using n by linarith
        with True n show ?thesis by (simp add: at_most_places_def c)
      next
        case False
        with n n' show ?thesis by (simp add: at_most_places_def c)
      qed
    qed
    also have "\<dots> = at_most_places k (Decimal s c' e')"
      using "1.IH" [OF _ _ s] "1.prems"(1) True c c1 by simp
    finally show ?thesis .
  qed
qed

lemma strip_zeros_magnitude:
  "c \<noteq> 0 \<Longrightarrow> strip_zeros c e = (c', e') \<Longrightarrow>
     magnitude_below k (Decimal s c e) = magnitude_below k (Decimal s c' e')"
proof (induction c e rule: strip_zeros.induct)
  case (1 c e)
  show ?case
  proof (cases "c mod 10 = 0")
    case False
    with "1.prems" show ?thesis by (simp add: strip_zeros.simps [of c e])
  next
    case True
    then obtain c1 where c: "c = 10 * c1" by (auto simp: mod_eq_0_iff_dvd)
    with "1.prems" have c1: "c1 \<noteq> 0" by simp
    have s: "strip_zeros (c div 10) (e + 1) = (c', e')"
      using "1.prems" True by (simp add: strip_zeros.simps [of c e])
    have "magnitude_below k (Decimal s c e) = magnitude_below k (Decimal s (c div 10) (e + 1))"
    proof (cases "0 \<le> e")
      case True
      then have "nat (e + 1) = Suc (nat e)" by simp
      with True show ?thesis by (simp add: magnitude_below_def c ac_simps)
    next
      case False
      then obtain n where n: "nat (- e) = Suc n" by (cases "nat (- e)") auto
      then have n': "nat (- (e + 1)) = n" by linarith
      show ?thesis
      proof (cases "0 \<le> e + 1")
        case True
        with False have "n = 0" using n by linarith
        with True False n show ?thesis by (simp add: magnitude_below_def c)
      next
        case False
        with n n' show ?thesis by (simp add: magnitude_below_def c)
      qed
    qed
    also have "\<dots> = magnitude_below k (Decimal s c' e')"
      using "1.IH" [OF _ _ s] "1.prems"(1) True c c1 by simp
    finally show ?thesis .
  qed
qed

lemma strip_zeros_result:
  "c \<noteq> 0 \<Longrightarrow> strip_zeros c e = (c', e') \<Longrightarrow> c' \<noteq> 0 \<and> c' mod 10 \<noteq> 0"
proof (induction c e rule: strip_zeros.induct)
  case (1 c e)
  show ?case
  proof (cases "c mod 10 = 0")
    case False
    with "1.prems" show ?thesis by (simp add: strip_zeros.simps [of c e])
  next
    case True
    then obtain c1 where c: "c = 10 * c1" by (auto simp: mod_eq_0_iff_dvd)
    with "1.prems" have c1: "c1 \<noteq> 0" by simp
    have s: "strip_zeros (c div 10) (e + 1) = (c', e')"
      using "1.prems" True by (simp add: strip_zeros.simps [of c e])
    show ?thesis using "1.IH" [OF _ _ s] "1.prems"(1) True c c1 by simp
  qed
qed


lemma num_digits_less_pow: "0 < k \<Longrightarrow> num_digits n \<le> k \<longleftrightarrow> n < 10 ^ k"
  using num_digits_le [of n "k - 1"] by simp

lemma num_digits_shift: "c \<noteq> 0 \<Longrightarrow> num_digits (c * 10 ^ j) = num_digits c + j"
proof (induction j)
  case 0
  show ?case by simp
next
  case (Suc j)
  have "\<not> c * 10 ^ Suc j < 10" using Suc.prems by simp
  then have "num_digits (c * 10 ^ Suc j) = Suc (num_digits (c * 10 ^ Suc j div 10))"
    by (subst num_digits.simps) simp
  also have "c * 10 ^ Suc j div 10 = c * 10 ^ j" by simp
  finally show ?case using Suc by simp
qed

lemma normal_places:
  assumes "c mod 10 \<noteq> 0"
  shows "at_most_places k (Decimal s c e) \<longleftrightarrow> - int k \<le> e"
proof (cases "- int k \<le> e")
  case True
  then show ?thesis by (simp add: at_most_places_def)
next
  case False
  then obtain n where n: "nat (- e - int k) = Suc n" by (cases "nat (- e - int k)") auto
  have "\<not> 10 ^ Suc n dvd c"
  proof
    assume "10 ^ Suc n dvd c"
    then have "10 dvd c" by (auto elim: dvd_mult_left)
    with assms show False by (simp add: mod_eq_0_iff_dvd)
  qed
  with False n show ?thesis by (simp add: at_most_places_def)
qed

lemma round_in_context: "num_digits c \<le> context_prec \<Longrightarrow> round_to_context c e = (c, e)"
  by (simp add: round_to_context_def)

lemma normalize_in_context:
  assumes "in_context (Decimal s c e)"
  shows "normalize_decimal (Decimal s c e) =
     (if c = 0 then Decimal s 0 0
      else (case strip_zeros c e of (c', e') \<Rightarrow> Decimal s c' e'))"
  using assms by (simp add: normalize_decimal_def in_context_def round_in_context)

lemma check_decimal_5_2:
  assumes "max_digits i = Some 5" and "decimal_places i = Some 2"
  shows "check_decimal Pydantic_1 i d = Inr (VDecimal d) \<longleftrightarrow>
     (case digits_info d of (dg, dc) \<Rightarrow> dg \<le> 5 \<and> dc \<le> 2 \<and> dg - dc \<le> 3)"
    and "check_decimal Pydantic_2 i d = Inr (VDecimal d) \<longleftrightarrow>
     (case (raw_info d, digits_info d) of
        ((dg, dc), (ndg, ndc)) \<Rightarrow> (dg \<le> 5 \<or> ndg \<le> 5) \<and> (dc \<le> 2 \<or> ndc \<le> 2) \<and> dg - dc \<le> 3)"
  using assms by (auto simp: check_decimal_def split: prod.splits)

lemma check_decimal_cases:
  "check_decimal lib i d = Inr (VDecimal d) \<or> (\<exists>e. check_decimal lib i d = Inl e)"
  by (cases lib) (auto simp: check_decimal_def split: prod.splits option.splits)

lemma raw_info_normal:
  assumes "c \<noteq> 0" and "c mod 10 \<noteq> 0"
  shows "(case raw_info (Decimal s c e) of (dg, dc) \<Rightarrow> dg \<le> 5 \<and> dc \<le> 2 \<and> dg - dc \<le> 3) \<longleftrightarrow>
     at_most_places 2 (Decimal s c e) \<and> magnitude_below 3 (Decimal s c e)"
proof -
  have di: "raw_info (Decimal s c e) =
      (if 0 \<le> e then (num_digits c + nat e, 0)
       else if num_digits c < nat (- e) then (nat (- e), nat (- e))
       else (num_digits c, nat (- e)))"
    by (simp add: raw_info_def Let_def)
  have pl: "at_most_places 2 (Decimal s c e) \<longleftrightarrow> - 2 \<le> e"
    using normal_places [OF assms(2), of 2 s e] by simp
  show ?thesis
  proof (cases "0 \<le> e")
    case True
    have "num_digits c + nat e \<le> 3 \<longleftrightarrow> c * 10 ^ nat e < 10 ^ 3"
      using num_digits_less_pow [of 3 "c * 10 ^ nat e"] num_digits_shift [OF assms(1), of "nat e"]
      by simp
    with True show ?thesis
      unfolding pl di by (auto simp: magnitude_below_def)
  next
    case False
    define k where "k = nat (- e)"
    with False have k: "0 < k" "(- 2 \<le> e) = (k \<le> 2)" by auto
    have mg: "magnitude_below 3 (Decimal s c e) \<longleftrightarrow> c < 10 ^ (3 + k)"
      using False by (simp add: magnitude_below_def k_def)
    show ?thesis
    proof (cases "num_digits c < k")
      case True
      then have "num_digits c \<le> k" by simp
      then have "c < 10 ^ k" using num_digits_less_pow [OF k(1), of c] by simp
      also have "(10::nat) ^ k \<le> 10 ^ (3 + k)" by (rule power_increasing) simp_all
      finally have "c < 10 ^ (3 + k)" .
      with True False show ?thesis
        unfolding pl di mg k(2) by (auto simp: k_def [symmetric])
    next
      case ge: False
      have "num_digits c \<le> 3 + k \<longleftrightarrow> c < 10 ^ (3 + k)"
        using num_digits_less_pow [of "3 + k" c] by simp
      with ge False show ?thesis
        unfolding pl di mg k(2) by (auto simp: k_def [symmetric])
    qed
  qed
qed

lemma normalized_digits:
  assumes "in_context d"
  shows "(case digits_info d of (dg, dc) \<Rightarrow> dg \<le> 5 \<and> dc \<le> 2 \<and> dg - dc \<le> 3) \<longleftrightarrow>
     at_most_places 2 d \<and> magnitude_below 3 d"
proof (cases d)
  case (Decimal s c e)
  show ?thesis
  proof (cases "c = 0")
    case True
    have "num_digits 0 = 1" by (simp add: num_digits.simps)
    with True Decimal assms show ?thesis
      by (simp add: digits_info_def normalize_in_context raw_info_def at_most_places_def
          magnitude_below_def)
  next
    case False
    obtain c' e' where st: "strip_zeros c e = (c', e')" by (cases "strip_zeros c e")
    note n = strip_zeros_result [OF False st]
    have nd: "digits_info d = raw_info (Decimal s c' e')"
      using Decimal False st assms by (simp add: digits_info_def normalize_in_context)
    have "(case digits_info d of (dg, dc) \<Rightarrow> dg \<le> 5 \<and> dc \<le> 2 \<and> dg - dc \<le> 3) \<longleftrightarrow>
        at_most_places 2 (Decimal s c' e') \<and> magnitude_below 3 (Decimal s c' e')"
      unfolding nd using raw_info_normal n by simp
    also have "\<dots> \<longleftrightarrow> at_most_places 2 d \<and> magnitude_below 3 d"
      using strip_zeros_places [OF False st, of 2 s] strip_zeros_magnitude [OF False st, of 3 s] Decimal
      by simp
    finally show ?thesis .
  qed
qed

lemma raw_whole_digits:
  assumes "coefficient d = 0 \<longrightarrow> exponent d \<le> 0"
  shows "(case raw_info d of (dg, dc) \<Rightarrow> dg - dc \<le> 3) \<longleftrightarrow> magnitude_below 3 d"
proof (cases d)
  case (Decimal s c e)
  have z: "num_digits 0 = 1" by (simp add: num_digits.simps)
  show ?thesis
  proof (cases "0 \<le> e")
    case True
    show ?thesis
    proof (cases "c = 0")
      case c: True
      with True assms Decimal have "e = 0" by simp
      with c Decimal z show ?thesis by (simp add: raw_info_def magnitude_below_def)
    next
      case c: False
      have "num_digits c + nat e \<le> 3 \<longleftrightarrow> c * 10 ^ nat e < 10 ^ 3"
        using num_digits_less_pow [of 3 "c * 10 ^ nat e"] num_digits_shift [OF c, of "nat e"]
        by simp
      with True Decimal show ?thesis by (simp add: raw_info_def magnitude_below_def)
    qed
  next
    case False
    define k where "k = nat (- e)"
    with False have k: "0 < k" by auto
    have mg: "magnitude_below 3 d \<longleftrightarrow> c < 10 ^ (3 + k)"
      using False Decimal by (simp add: magnitude_below_def k_def)
    have ri: "raw_info d = (if num_digits c < k then (k, k) else (num_digits c, k))"
      using False Decimal by (simp add: raw_info_def k_def)
    show ?thesis
    proof (cases "num_digits c < k")
      case True
      then have "num_digits c \<le> k" by simp
      then have "c < 10 ^ k" using num_digits_less_pow [OF k, of c] by simp
      also have "(10::nat) ^ k \<le> 10 ^ (3 + k)" by (rule power_increasing) simp_all
      finally have "c < 10 ^ (3 + k)" .
      with True show ?thesis unfolding mg ri by simp
    next
      case ge: False
      have "num_digits c \<le> 3 + k \<longleftrightarrow> c < 10 ^ (3 + k)"
        using num_digits_less_pow [of "3 + k" c] by simp
      with ge show ?thesis unfolding mg ri by auto
    qed
  qed
qed

lemma raw_places: "snd (raw_info d) \<le> k \<longleftrightarrow> - int k \<le> exponent d"
  by (cases d) (auto simp: raw_info_def Let_def)

lemma normalized_places:
  assumes "in_context d"
  shows "snd (digits_info d) \<le> k \<longleftrightarrow> at_most_places k d"
proof (cases d)
  case (Decimal s c e)
  show ?thesis
  proof (cases "c = 0")
    case True
    with Decimal assms show ?thesis
      by (simp add: digits_info_def normalize_in_context raw_places at_most_places_def)
  next
    case False
    obtain c' e' where st: "strip_zeros c e = (c', e')" by (cases "strip_zeros c e")
    note n = strip_zeros_result [OF False st]
    have nd: "digits_info d = raw_info (Decimal s c' e')"
      using Decimal False st assms by (simp add: digits_info_def normalize_in_context)
    have "snd (digits_info d) \<le> k \<longleftrightarrow> at_most_places k (Decimal s c' e')"
      unfolding nd raw_places using normal_places [of c' k s e'] n by simp
    also have "\<dots> \<longleftrightarrow> at_most_places k d"
      using strip_zeros_places [OF False st, of k s] Decimal by simp
    finally show ?thesis .
  qed
qed

lemma accepted_decimal:
  assumes "max_digits i = Some 5" and "decimal_places i = Some 2" and "in_context d"
  shows "check_decimal lib i d = Inr (VDecimal d) \<longleftrightarrow> at_most_places 2 d \<and> magnitude_below 3 d"
proof (cases lib)
  case Pydantic_1
  show ?thesis
    unfolding Pydantic_1 check_decimal_5_2 [OF assms(1,2)] by (rule normalized_digits [OF assms(3)])
next
  case Pydantic_2
  obtain dg dc where r: "raw_info d = (dg, dc)" by (cases "raw_info d")
  obtain ndg ndc where n: "digits_info d = (ndg, ndc)" by (cases "digits_info d")
  have z: "coefficient d = 0 \<longrightarrow> exponent d \<le> 0"
    using assms(3) by (simp add: in_context_def)
  have w: "dg - dc \<le> 3 \<longleftrightarrow> magnitude_below 3 d"
    using raw_whole_digits [OF z] r by simp
  have v: "ndg \<le> 5 \<and> ndc \<le> 2 \<and> ndg - ndc \<le> 3 \<longleftrightarrow> at_most_places 2 d \<and> magnitude_below 3 d"
    using normalized_digits [OF assms(3)] n by simp
  have p: "at_most_places 2 d" if "dc \<le> 2"
    using raw_places [of d 2] r that by (simp add: at_most_places_def)
  have q: "ndc \<le> 2 \<longleftrightarrow> at_most_places 2 d"
    using normalized_places [OF assms(3), of 2] n by simp
  show ?thesis
    unfolding Pydantic_2 check_decimal_5_2 [OF assms(1,2)] r n using w v p q by auto
qed


lemma completion_field:
  "field_named InductionProgress ''completion_percentage'' =
     Some (fld ''completion_percentage'' T_Decimal
       (Field\<lparr>dflt := Some (VDecimal (Decimal False 0 0)), max_digits := Some 5,
          decimal_places := Some 2\<rparr>))"
  by (simp add: field_named_def InductionProgress_def fld_def)

lemma completion_result:
  "p ''completion_percentage'' = Some (VDecimal d) \<Longrightarrow>
     field_result lib InductionProgress now p ''completion_percentage'' =
       Some (check_decimal lib (Field\<lparr>dflt := Some (VDecimal (Decimal False 0 0)),
          max_digits := Some 5, decimal_places := Some 2\<rparr>) d)"
  by (simp add: field_result_def completion_field validate_field_def fld_def)

lemma num_digits_numeral:
  "num_digits (numeral n) =
     (if (numeral n :: nat) < 10 then 1 else Suc (num_digits (numeral n div 10)))"
  by (rule num_digits.simps)

lemma num_digits_small: "num_digits 0 = 1" "num_digits (Suc 0) = 1"
  by (simp_all add: num_digits.simps)

lemma strip_zeros_numeral:
  "strip_zeros (numeral n) e =
     (if (numeral n :: nat) mod 10 = 0 then strip_zeros (numeral n div 10) (e + 1)
      else (numeral n, e))"
  by (subst strip_zeros.simps) simp

lemma strip_zeros_small: "strip_zeros 0 e = (0, e)" "strip_zeros (Suc 0) e = (Suc 0, e)"
  by (simp_all add: strip_zeros.simps)

lemmas decimal_simps =
  num_digits_numeral num_digits_small strip_zeros_numeral strip_zeros_small context_prec_def

lemma sample_decimals_in_context:
  "list_all in_context [Decimal False 0 0, Decimal False 5025 (- 2), Decimal False 100 0,
     Decimal False 10001 (- 2), Decimal False 99999 (- 2)]"
  by (simp add: in_context_def decimal_simps)

text \<open>
  Claim C8, as amended. For a number of at most 28 significant digits (\<open>in_context\<close>), the
  completion percentage of an \<open>InductionProgress\<close> payload is accepted exactly when its value
  has at most two decimal places and a magnitude below 1000, under either library. So such a
  value with more than two decimal places is refused, with a validation error about the
  field; \<open>0\<close>, \<open>50.25\<close> and \<open>100\<close> are accepted; and 100 is not a bound, since \<open>100.01\<close> and
  \<open>999.99\<close> are accepted too. The bound that the declaration does give is three digits before
  the point.
\<close>

theorem completion_percentage_range:
  assumes "p ''completion_percentage'' = Some (VDecimal d)" and "in_context d"
  shows "(field_result lib InductionProgress now p ''completion_percentage'' = Some (Inr (VDecimal d))
       \<longleftrightarrow> at_most_places 2 d \<and> magnitude_below 3 d) \<and>
    (\<not> at_most_places 2 d \<longrightarrow>
       (\<exists>errs e. model_validate lib InductionProgress now p = Inl (ValidationError errs) \<and>
          (''completion_percentage'', e) \<in> set errs)) \<and>
    (\<forall>d' \<in> set [Decimal False 0 0, Decimal False 5025 (- 2), Decimal False 100 0,
           Decimal False 10001 (- 2), Decimal False 99999 (- 2)].
       in_context d' \<and>
       field_result lib InductionProgress now (progress_payload d') ''completion_percentage'' =
         Some (Inr (VDecimal d')))"
proof -
  let ?i = "Field\<lparr>dflt := Some (VDecimal (Decimal False 0 0)), max_digits := Some 5,
          decimal_places := Some 2\<rparr>"
  have i: "max_digits ?i = Some 5" "decimal_places ?i = Some 2" by simp_all
  have iff: "field_result lib InductionProgress now q ''completion_percentage'' = Some (Inr (VDecimal x))
       \<longleftrightarrow> at_most_places 2 x \<and> magnitude_below 3 x"
    if "q ''completion_percentage'' = Some (VDecimal x)" "in_context x" for q x
    unfolding completion_result [of q x lib now, OF that(1)]
    using accepted_decimal [OF i that(2), of lib] by simp
  have rej: "\<exists>errs e. model_validate lib InductionProgress now p = Inl (ValidationError errs) \<and>
          (''completion_percentage'', e) \<in> set errs" if "\<not> at_most_places 2 d"
  proof -
    have "check_decimal lib ?i d \<noteq> Inr (VDecimal d)"
      using accepted_decimal [OF i assms(2), of lib] that by simp
    then obtain e where e: "check_decimal lib ?i d = Inl e"
      using check_decimal_cases [of lib ?i d] by blast
    have fr: "field_result lib InductionProgress now p ''completion_percentage'' = Some (Inl e)"
      unfolding completion_result [of p d lib now, OF assms(1)] using e by simp
    have "model_validate lib InductionProgress now p \<noteq> Inr r" for r
      using valid_field_result [of lib InductionProgress now p r "''completion_percentage''"] fr
      by (cases "r ''completion_percentage''") auto
    then obtain errs where errs: "model_validate lib InductionProgress now p = Inl (ValidationError errs)"
      by (cases "model_validate lib InductionProgress now p") (auto simp: model_validate_Inl)
    have "InductionProgress \<in> set all_models"
      by (simp add: all_models_def table_models_def)
    from errors_field_result [OF all_models_distinct [OF this] errs] fr show ?thesis
      using errs by blast
  qed
  have a: "progress_payload x ''completion_percentage'' = Some (VDecimal x)" for x
    by (simp add: progress_payload_def)
  have "in_context d' \<and>
       field_result lib InductionProgress now (progress_payload d') ''completion_percentage'' =
         Some (Inr (VDecimal d'))"
    if "d' \<in> set [Decimal False 0 0, Decimal False 5025 (- 2), Decimal False 100 0,
           Decimal False 10001 (- 2), Decimal False 99999 (- 2)]" for d'
  proof -
    have c: "in_context d'"
      using sample_decimals_in_context that unfolding list_all_iff by blast
    have "at_most_places 2 d' \<and> magnitude_below 3 d'"
      using that by (auto simp: at_most_places_def magnitude_below_def)
    with iff [of "progress_payload d'" d', OF a c] c show ?thesis by simp
  qed
  with iff [of p d, OF assms] rej show ?thesis by blast
qed

text \<open>\<open>12.345\<close> has three decimal places and is refused; \<open>999.99\<close> is accepted.\<close>

theorem completion_percentage_range_witness:
  "progress_payload (Decimal False 12345 (- 3)) ''completion_percentage'' =
     Some (VDecimal (Decimal False 12345 (- 3))) \<and>
   in_context (Decimal False 12345 (- 3)) \<and>
   \<not> at_most_places 2 (Decimal False 12345 (- 3)) \<and>
   (\<forall>lib. \<exists>errs e. model_validate lib InductionProgress 0
        (progress_payload (Decimal False 12345 (- 3))) = Inl (ValidationError errs) \<and>
      (''completion_percentage'', e) \<in> set errs) \<and>
   (\<forall>lib. field_result lib InductionProgress 0 (progress_payload (Decimal False 99999 (- 2)))
     ''completion_percentage'' = Some (Inr (VDecimal (Decimal False 99999 (- 2)))))"
proof -
  have a: "progress_payload d ''completion_percentage'' = Some (VDecimal d)" for d
    by (simp add: progress_payload_def)
  have c: "in_context (Decimal False 12345 (- 3))"
    by (simp add: in_context_def decimal_simps)
  have n: "\<not> at_most_places 2 (Decimal False 12345 (- 3))"
    by (simp add: at_most_places_def)
  note t = completion_percentage_range [where p = "progress_payload (Decimal False 12345 (- 3))"
      and d = "Decimal False 12345 (- 3)" and now = 0, OF a c]
  have "\<exists>errs e. model_validate lib InductionProgress 0
        (progress_payload (Decimal False 12345 (- 3))) = Inl (ValidationError errs) \<and>
      (''completion_percentage'', e) \<in> set errs" for lib
    using t [of lib] n by blast
  moreover have "field_result lib InductionProgress 0 (progress_payload (Decimal False 99999 (- 2)))
     ''completion_percentage'' = Some (Inr (VDecimal (Decimal False 99999 (- 2))))" for lib
    using t [of lib] by simp
  ultimately show ?thesis using a c n by blast
qed

text \<open>
  Claim C8 as stated fails twice. "Values above 100 with at most 5 digits and 2 decimal places
  are not rejected" fails at \<open>1000\<close>: it has four digits and no decimal place, it is not
  below 100, and it is refused under either library, because with two of the five digits
  kept for the decimal places only three may stand before the point. "Rejects any value
  carrying more than two decimal places" fails at \<open>999.99000000000000000000000000001\<close>: the
  number has 29 decimal places and is accepted under either library, because
  \<open>Decimal.normalize()\<close> rounds it to the 28 digits of the context, which leaves \<open>999.99\<close>.
\<close>

theorem five_digits_counterexample:
  "raw_info (Decimal False 1000 0) = (4, 0) \<and> digits_info (Decimal False 1000 0) = (4, 0) \<and>
   (4::nat) \<le> 5 \<and> (0::nat) \<le> 2 \<and> in_context (Decimal False 1000 0) \<and>
   \<not> magnitude_below 2 (Decimal False 1000 0) \<and>
   model_validate Pydantic_1 InductionProgress 0 (progress_payload (Decimal False 1000 0)) =
     Inl (ValidationError [(''completion_percentage'', Whole_digits)]) \<and>
   model_validate Pydantic_2 InductionProgress 0 (progress_payload (Decimal False 1000 0)) =
     Inl (ValidationError [(''completion_percentage'', Whole_digits)]) \<and>
   \<not> at_most_places 2 long_decimal \<and> raw_info long_decimal = (32, 29) \<and>
   normalize_decimal long_decimal = Decimal False 99999 (- 2) \<and>
   map_sum id (\<lambda>r. r ''completion_percentage'')
       (model_validate Pydantic_1 InductionProgress 0 (progress_payload long_decimal)) =
     Inr (Some (VDecimal long_decimal)) \<and>
   map_sum id (\<lambda>r. r ''completion_percentage'')
       (model_validate Pydantic_2 InductionProgress 0 (progress_payload long_decimal)) =
     Inr (Some (VDecimal long_decimal))"
proof -
  have r: "raw_info (Decimal False 1000 0) = (4, 0)"
    by (simp add: raw_info_def decimal_simps)
  have n1: "normalize_decimal (Decimal False 1000 0) = Decimal False 1 3"
    by (simp add: normalize_decimal_def round_to_context_def decimal_simps)
  have d: "digits_info (Decimal False 1000 0) = (4, 0)"
    by (simp add: digits_info_def n1 raw_info_def decimal_simps)
  have c: "in_context (Decimal False 1000 0)"
    by (simp add: in_context_def decimal_simps)
  have v: "model_validate lib InductionProgress 0 (progress_payload (Decimal False 1000 0)) =
     Inl (ValidationError [(''completion_percentage'', Whole_digits)])" for lib
    by (cases lib) (simp_all add: InductionProgress_def progress_payload_def validate_simps d r)
  have p: "\<not> at_most_places 2 long_decimal"
    by (simp add: at_most_places_def long_decimal_def)
  have lr: "raw_info long_decimal = (32, 29)"
    by (simp add: raw_info_def long_decimal_def decimal_simps)
  have ln: "normalize_decimal long_decimal = Decimal False 99999 (- 2)"
    by (simp add: normalize_decimal_def round_to_context_def long_decimal_def decimal_simps)
  have ld: "digits_info long_decimal = (5, 2)"
    by (simp add: digits_info_def ln raw_info_def decimal_simps)
  have a: "map_sum id (\<lambda>r. r ''completion_percentage'')
       (model_validate lib InductionProgress 0 (progress_payload long_decimal)) =
     Inr (Some (VDecimal long_decimal))" for lib
    by (cases lib) (simp_all add: InductionProgress_def progress_payload_def validate_simps ld lr)
  from r d c v p lr ln a show ?thesis by (simp add: magnitude_below_def)
qed

text \<open>
  Why \<open>in_context\<close> asks that zero is written without a positive exponent: \<open>0E+5\<close> is zero,
  and the two libraries disagree on it.
\<close>

lemma zero_with_exponent:
  "\<not> in_context (Decimal False 0 5) \<and>
   at_most_places 2 (Decimal False 0 5) \<and> magnitude_below 3 (Decimal False 0 5) \<and>
   field_result Pydantic_1 InductionProgress 0 (progress_payload (Decimal False 0 5))
     ''completion_percentage'' = Some (Inr (VDecimal (Decimal False 0 5))) \<and>
   field_result Pydantic_2 InductionProgress 0 (progress_payload (Decimal False 0 5))
     ''completion_percentage'' = Some (Inl Whole_digits)"
proof -
  have r: "raw_info (Decimal False 0 5) = (6, 0)"
    by (simp add: raw_info_def decimal_simps)
  have d: "digits_info (Decimal False 0 5) = (1, 0)"
    by (simp add: digits_info_def normalize_decimal_def round_to_context_def raw_info_def
        decimal_simps)
  have a: "progress_payload d ''completion_percentage'' = Some (VDecimal d)" for d
    by (simp add: progress_payload_def)
  show ?thesis
    unfolding completion_result [of "progress_payload (Decimal False 0 5)" "Decimal False 0 5", OF a]
    by (simp add: check_decimal_def r d in_context_def at_most_places_def magnitude_below_def)
qed

section \<open>Partial updates\<close>

lemma update_models_in_all: "shape \<in> set update_models \<Longrightarrow> shape \<in> set all_models"
  by (auto simp: update_models_def all_models_def schema_models_def)

lemma update_annotations:
  assumes "shape \<in> set update_models" and "f \<in> set (model_fields shape)"
  shows "update_typed (annotation f)"
proof -
  have "list_all (\<lambda>m. list_all (\<lambda>f. update_typed (annotation f)) (model_fields m)) update_models"
    unfolding update_models_def by (simp add: model_defs fld_def update_typed_def)
  from checked_field [OF this assms] show ?thesis .
qed

lemma update_keeps_value:
  assumes "update_typed (annotation f)" and "validate_field lib now f (Some v) = Inr w"
  shows "w = v"
  using assms
  by (cases v)
    (auto simp: update_typed_def validate_field_def check_str_def split: if_splits)

lemma field_named_None: "field_named m k = None \<longleftrightarrow> k \<notin> name ` set (model_fields m)"
  unfolding field_named_def find_None_iff by auto

lemma apply_update_pointwise:
  assumes "shape \<in> set update_models" and "apply_update lib shape now r p = Inr r'"
  shows "r' k = (if p k \<noteq> None \<and> k \<in> name ` set (model_fields shape) then p k else r k)"
proof -
  from assms(2) obtain v where v: "model_validate lib shape now p = Inr v"
    and r': "r' = (\<lambda>k. if p k = None then r k else (case v k of None \<Rightarrow> r k | Some x \<Rightarrow> Some x))"
    by (auto simp: apply_update_def split: sum.splits)
  note fr = valid_field_result [OF v, of k]
  show ?thesis
  proof (cases "p k")
    case None
    then show ?thesis by (simp add: r')
  next
    case (Some x)
    show ?thesis
    proof (cases "field_named shape k")
      case None
      then have "v k = None" using fr by (simp add: field_result_def)
      with None Some show ?thesis by (simp add: r' field_named_None)
    next
      case f: (Some f)
      then have fin: "f \<in> set (model_fields shape)" and n: "name f = k"
        using find_Some_set [of "\<lambda>f. name f = k" "model_fields shape" f]
        by (simp_all add: field_named_def)
      from fr f Some obtain w where w: "v k = Some w" "validate_field lib now f (Some x) = Inr w"
        by (cases "v k") (auto simp: field_result_def)
      from update_keeps_value [OF update_annotations [OF assms(1) fin] w(2)] have "w = x" .
      with w Some fin n show ?thesis by (auto simp: r')
    qed
  qed
qed

lemma deactivate_user:
  "apply_update lib UserUpdate now r [''is_active'' \<mapsto> VBool False] =
     Inr (\<lambda>k. if k = ''is_active'' then Some (VBool False) else r k)"
  by (auto simp: apply_update_def UserUpdate_def validate_simps)

text \<open>
  Claim C2. Applying a \<open>UserUpdate\<close> or \<open>ProjectUpdate\<close> payload to a stored row overwrites
  exactly the fields of the shape that the payload gives, with the values it gives, and leaves
  every other field of the row as it was. In particular the payload that holds only
  \<open>is_active = False\<close> always applies to a user row, sets \<open>is_active\<close> to false and leaves
  \<open>first_name\<close>, \<open>last_name\<close> and \<open>email\<close> unchanged.
\<close>

theorem partial_update:
  assumes "shape \<in> set update_models" and "apply_update lib shape now r p = Inr r'"
  shows "(\<forall>k. k \<in> name ` set (model_fields shape) \<and> p k \<noteq> None \<longrightarrow> r' k = p k) \<and>
    (\<forall>k. k \<notin> name ` set (model_fields shape) \<or> p k = None \<longrightarrow> r' k = r k) \<and>
    (\<exists>u. apply_update lib UserUpdate now r [''is_active'' \<mapsto> VBool False] = Inr u \<and>
       u ''is_active'' = Some (VBool False) \<and> u ''first_name'' = r ''first_name'' \<and>
       u ''last_name'' = r ''last_name'' \<and> u ''email'' = r ''email'')"
  using apply_update_pointwise [OF assms] deactivate_user [of lib now r] by auto

text \<open>On a stored active user the update deactivates the user and keeps the names and the email.\<close>

theorem partial_update_witness:
  "UserUpdate \<in> set update_models \<and>
   (\<forall>lib. \<exists>u. apply_update lib UserUpdate 9 user_row [''is_active'' \<mapsto> VBool False] = Inr u \<and>
      user_row ''is_active'' = Some (VBool True) \<and> u ''is_active'' = Some (VBool False) \<and>
      u ''first_name'' = Some (VStr ''Ada'') \<and> u ''last_name'' = Some (VStr ''Lovelace'') \<and>
      u ''email'' = Some (VStr ''a@example.com''))"
proof -
  have m: "UserUpdate \<in> set update_models" by (simp add: update_models_def)
  have n: "name ` set (model_fields UserUpdate) = {''first_name'', ''last_name'', ''is_active''}"
    by (auto simp: UserUpdate_def fld_def)
  have "\<exists>u. apply_update lib UserUpdate 9 user_row [''is_active'' \<mapsto> VBool False] = Inr u \<and>
      user_row ''is_active'' = Some (VBool True) \<and> u ''is_active'' = Some (VBool False) \<and>
      u ''first_name'' = Some (VStr ''Ada'') \<and> u ''last_name'' = Some (VStr ''Lovelace'') \<and>
      u ''email'' = Some (VStr ''a@example.com'')" for lib
  proof -
    obtain u where u: "apply_update lib UserUpdate 9 user_row [''is_active'' \<mapsto> VBool False] = Inr u"
      using deactivate_user by blast
    from partial_update [OF m u]
    have "(\<forall>k. k \<in> name ` set (model_fields UserUpdate) \<and>
            [''is_active'' \<mapsto> VBool False] k \<noteq> None \<longrightarrow> u k = [''is_active'' \<mapsto> VBool False] k)"
      and "(\<forall>k. k \<notin> name ` set (model_fields UserUpdate) \<or>
            [''is_active'' \<mapsto> VBool False] k = None \<longrightarrow> u k = user_row k)"
      by blast+
    then have "u ''is_active'' = Some (VBool False)" "u ''first_name'' = user_row ''first_name''"
      "u ''last_name'' = user_row ''last_name''" "u ''email'' = user_row ''email''"
      unfolding n by simp_all
    with u show ?thesis by (simp add: user_row_def)
  qed
  with m show ?thesis by blast
qed

text \<open>
  Claim C10. \<open>ProjectUpdate\<close> (lines 298-304) declares no field \<open>code\<close> and \<open>UserUpdate\<close>
  (lines 284-287) no field \<open>email\<close>. So whatever the payload holds, an update that applies
  leaves the stored code of a project, and the stored email of a user, as they were.
\<close>

theorem update_leaves_code_and_email:
  "(apply_update lib ProjectUpdate now r p = Inr r' \<longrightarrow> r' ''code'' = r ''code'') \<and>
   (apply_update lib UserUpdate now r p = Inr r' \<longrightarrow> r' ''email'' = r ''email'') \<and>
   ''code'' \<notin> name ` set (model_fields ProjectUpdate) \<and>
   ''email'' \<notin> name ` set (model_fields UserUpdate)"
proof -
  have c: "''code'' \<notin> name ` set (model_fields ProjectUpdate)"
    by (simp add: ProjectUpdate_def fld_def)
  have e: "''email'' \<notin> name ` set (model_fields UserUpdate)"
    by (simp add: UserUpdate_def fld_def)
  have m: "ProjectUpdate \<in> set update_models" "UserUpdate \<in> set update_models"
    by (simp_all add: update_models_def)
  have "r' ''code'' = r ''code''" if "apply_update lib ProjectUpdate now r p = Inr r'"
    using apply_update_pointwise [OF m(1) that, of "''code''"] c by simp
  moreover have "r' ''email'' = r ''email''" if "apply_update lib UserUpdate now r p = Inr r'"
    using apply_update_pointwise [OF m(2) that, of "''email''"] e by simp
  ultimately show ?thesis using c e by blast
qed

text \<open>A payload that carries a key \<open>code\<close> renames the project and does not change its code.\<close>

theorem update_leaves_code_and_email_witness:
  "\<forall>lib. \<exists>u. apply_update lib ProjectUpdate 9 project_row
          [''code'' \<mapsto> VStr ''PRJ2'', ''name'' \<mapsto> VStr ''Renamed''] = Inr u \<and>
        u ''code'' = Some (VStr ''PRJ1'') \<and> u ''name'' = Some (VStr ''Renamed'')"
proof
  fix lib
  obtain u where u: "apply_update lib ProjectUpdate 9 project_row
          [''code'' \<mapsto> VStr ''PRJ2'', ''name'' \<mapsto> VStr ''Renamed''] = Inr u"
    and n: "u ''name'' = Some (VStr ''Renamed'')"
    by (simp add: apply_update_def ProjectUpdate_def validate_simps)
  have "u ''code'' = project_row ''code''"
    using update_leaves_code_and_email [of lib 9 project_row
        "[''code'' \<mapsto> VStr ''PRJ2'', ''name'' \<mapsto> VStr ''Renamed'']" u] u by blast
  with u n show "\<exists>u. apply_update lib ProjectUpdate 9 project_row
          [''code'' \<mapsto> VStr ''PRJ2'', ''name'' \<mapsto> VStr ''Renamed''] = Inr u \<and>
        u ''code'' = Some (VStr ''PRJ1'') \<and> u ''name'' = Some (VStr ''Renamed'')"
    by (simp add: project_row_def)
qed

section \<open>Uniqueness\<close>

lemma sample_pattern_ok: "pattern_ok lib email_regex ''a@example.com''"
  by (rule matches_pattern_ok) (rule sample_email_matches)

lemma persist_conflict:
  assumes "tablename m = Some t" and "f \<in> set (model_fields m)" and "collides f (st t) r"
  shows "persist m st r = (Inl ConflictError, st)"
proof -
  have "list_ex (\<lambda>f. collides f (st t) r) (model_fields m)"
    using assms(2,3) by (auto simp: list_ex_iff)
  with assms(1) show ?thesis by (simp add: persist_def)
qed

lemma failed_create_keeps_store: "fst (create lib m st now p) = Inl e \<Longrightarrow> snd (create lib m st now p) = st"
  by (auto simp: create_def persist_def Let_def split: sum.splits option.splits if_splits)

lemma unique_fields_checked:
  assumes "m \<in> set table_models" and "f \<in> set (model_fields m)"
  shows "unique (info f) \<longleftrightarrow> (cls_name m, name f) \<in> set unique_fields"
proof -
  have "list_all (\<lambda>m. list_all (\<lambda>f. unique (info f) = ((cls_name m, name f) \<in> set unique_fields))
      (model_fields m)) table_models"
    unfolding table_models_def by (simp add: model_defs fld_def Field_def unique_fields_def)
  from checked_field [OF this assms] show ?thesis .
qed

lemma users_after_first:
  "\<exists>u. create lib User empty_store 0 (user_payload ''a@example.com'') = (Inr u, store_with_user) \<and>
       u ''id'' = Some (VInt 1) \<and> store_with_user ''users'' = [u] \<and>
       u ''email'' = Some (VStr ''a@example.com'') \<and> store_with_user ''projects'' = []"
  using sample_pattern_ok [of lib] sample_pattern_ok [of Pydantic_1]
  by (simp add: store_with_user_def create_def persist_def User_def user_payload_def validate_simps
      collides_def dangling_def empty_store_def next_id_def has_value_def row_id_def Let_def
      del: matches.simps)

lemma second_user_conflict:
  "create lib User store_with_user 1 (user_payload ''a@example.com'') = (Inl ConflictError, store_with_user)"
proof -
  obtain u where u: "store_with_user ''users'' = [u]" "u ''email'' = Some (VStr ''a@example.com'')"
    using users_after_first by blast
  have "fst (create lib User store_with_user 1 (user_payload ''a@example.com'')) = Inl ConflictError"
    using sample_pattern_ok [of lib] u
    by (simp add: create_def persist_def User_def user_payload_def validate_simps
      collides_def has_value_def del: matches.simps)
  with failed_create_keeps_store [OF this] show ?thesis
    by (simp add: prod_eq_iff)
qed

lemma projects_after_first:
  "\<exists>pr. create lib Project store_with_user 1 (owned_project_payload ''PRJ1'') = (Inr pr, store_with_project) \<and>
       store_with_project ''projects'' = [pr] \<and> pr ''code'' = Some (VStr ''PRJ1'') \<and>
       store_with_project ''users'' = store_with_user ''users''"
proof -
  obtain u where u: "store_with_user ''users'' = [u]" "u ''id'' = Some (VInt 1)"
    and e: "store_with_user ''projects'' = []"
    using users_after_first by blast
  show ?thesis
    using u e
    by (simp add: store_with_project_def create_def persist_def Project_def
      owned_project_payload_def validate_simps collides_def dangling_def fk_target_def
      next_id_def has_value_def row_id_def Let_def)
qed

lemma second_project_conflict:
  "create lib Project store_with_project 2 (owned_project_payload ''PRJ1'') =
     (Inl ConflictError, store_with_project)"
proof -
  obtain pr where pr: "store_with_project ''projects'' = [pr]" "pr ''code'' = Some (VStr ''PRJ1'')"
    using projects_after_first by blast
  have "fst (create lib Project store_with_project 2 (owned_project_payload ''PRJ1'')) = Inl ConflictError"
    using pr
    by (simp add: create_def persist_def Project_def owned_project_payload_def validate_simps
      collides_def has_value_def)
  with failed_create_keeps_store [OF this] show ?thesis
    by (simp add: prod_eq_iff)
qed

text \<open>
  Claim C3. When a row is persisted whose value in a field declared unique is held, in that
  field, by a row already stored in the same table, persisting fails with a conflict error
  and the store is unchanged; so does the creation from any payload that validates to such a
  row. The unique fields of the tables are \<open>User.email\<close>, \<open>Project.code\<close> and
  \<open>OnboardingDetails.request_id\<close>. The first user with the email \<open>a@example.com\<close> is created
  and the second is refused, and likewise for two projects with the code \<open>PRJ1\<close>.
\<close>

theorem unique_collision_conflict:
  assumes "tablename m = Some t" and "f \<in> set (model_fields m)" and "unique (info f)"
    and "r (name f) = Some v" and "r0 \<in> set (st t)" and "r0 (name f) = Some v"
  shows "persist m st r = (Inl ConflictError, st) \<and>
    (\<forall>now p. model_validate lib m now p = Inr r \<longrightarrow> create lib m st now p = (Inl ConflictError, st)) \<and>
    (\<forall>m' \<in> set table_models. \<forall>f' \<in> set (model_fields m').
       unique (info f') \<longleftrightarrow>
         (cls_name m', name f') \<in> {(''User'', ''email''), (''Project'', ''code''),
            (''OnboardingDetails'', ''request_id'')}) \<and>
    (\<exists>u. create lib User empty_store 0 (user_payload ''a@example.com'') = (Inr u, store_with_user)) \<and>
    create lib User store_with_user 1 (user_payload ''a@example.com'') =
      (Inl ConflictError, store_with_user) \<and>
    (\<exists>pr. create lib Project store_with_user 1 (owned_project_payload ''PRJ1'') =
       (Inr pr, store_with_project)) \<and>
    create lib Project store_with_project 2 (owned_project_payload ''PRJ1'') =
      (Inl ConflictError, store_with_project)"
proof -
  have "collides f (st t) r"
    using assms(3-6) by (auto simp: collides_def has_value_def list_ex_iff)
  from persist_conflict [of m t f st r, OF assms(1,2) this]
  have p: "persist m st r = (Inl ConflictError, st)" .
  then have c: "create lib m st now p = (Inl ConflictError, st)"
    if "model_validate lib m now p = Inr r" for now p
    using that by (simp add: create_def)
  have u: "\<forall>m' \<in> set table_models. \<forall>f' \<in> set (model_fields m').
       unique (info f') \<longleftrightarrow>
         (cls_name m', name f') \<in> {(''User'', ''email''), (''Project'', ''code''),
            (''OnboardingDetails'', ''request_id'')}"
    using unique_fields_checked by (simp add: unique_fields_def)
  show ?thesis
    using p c u users_after_first second_user_conflict projects_after_first
      second_project_conflict by blast
qed


text \<open>A second row with the stored email cannot be persisted.\<close>

theorem unique_collision_conflict_witness:
  "tablename User = Some ''users'' \<and> user_row ''email'' = Some (VStr ''a@example.com'') \<and>
   (\<exists>u \<in> set (store_with_user ''users''). u ''email'' = Some (VStr ''a@example.com'')) \<and>
   persist User store_with_user user_row = (Inl ConflictError, store_with_user)"
proof -
  let ?f = "fld ''email'' T_str
    (Field\<lparr>unique := True, max_length := Some 255, regex := Some email_regex\<rparr>)"
  obtain u where u: "u \<in> set (store_with_user ''users'')" "u ''email'' = Some (VStr ''a@example.com'')"
    using users_after_first [of Pydantic_1] by auto
  have t: "tablename User = Some ''users''" by (simp add: User_def)
  have q: "unique (info ?f)" and n: "name ?f = ''email''" by (simp_all add: fld_def)
  have r: "user_row (name ?f) = Some (VStr ''a@example.com'')"
    by (simp add: user_row_def fld_def)
  have "persist User store_with_user user_row = (Inl ConflictError, store_with_user)"
    using unique_collision_conflict [where m = User and t = "''users''" and f = ?f
        and r = user_row and v = "VStr ''a@example.com''" and ?r0.0 = u and st = store_with_user and lib = Pydantic_1,
        OF t user_email_field q r u(1)] u(2) n by simp
  with t r u n show ?thesis by auto
qed

section \<open>References\<close>



















end
